theory Spec2Isabelle
  imports Main "HOL-Library.Sublist" "HOL-Library.Char_ord" "HOL-Library.List_Lexorder"
begin

section \<open>Instants, their ISO strings, and the host's Date arithmetic\<close>

text \<open>
  An instant is a time value, the number of milliseconds since 1970-01-01T00:00:00Z.
  The handler reads the clock once per tick and turns the instant into a string with
  \<^verbatim>\<open>toISOString()\<close>; that string, \<^verbatim>\<open>currentTime\<close>, is what it binds to the due query,
  writes into the log and the task, and turns back into the instant with
  \<^verbatim>\<open>new Date(currentTime)\<close>. The functions of the handler take the instant \<open>now\<close>
  here and write \<open>toISOString now\<close> wherever the source uses the string. Every stored
  timestamp is text, a \<open>string\<close>, compared as the database compares text: byte by
  byte, a proper prefix first. Time values are taken inside the range of Date, and the
  host runs with local time equal to UTC.

  \<^verbatim>\<open>getDate\<close>, \<^verbatim>\<open>setDate\<close>, \<^verbatim>\<open>getMonth\<close>, \<^verbatim>\<open>setMonth\<close> and \<^verbatim>\<open>toISOString\<close> are
  defined as the ECMAScript language specification defines them, from \<open>Day\<close>,
  \<open>TimeWithinDay\<close>, \<open>DayFromYear\<close>, \<open>YearFromTime\<close>, \<open>MonthFromTime\<close>, \<open>DateFromTime\<close>,
  \<open>HourFromTime\<close>, \<open>MinFromTime\<close>, \<open>SecFromTime\<close>, \<open>msFromTime\<close>, \<open>MakeDay\<close> and
  \<open>MakeDate\<close>.
\<close>

type_synonym time = int

definition msPerDay :: int where
  "msPerDay = 86400000"

definition Day :: "time \<Rightarrow> int" where
  "Day t = t div msPerDay"

definition TimeWithinDay :: "time \<Rightarrow> int" where
  "TimeWithinDay t = t mod msPerDay"

definition DaysInYear :: "int \<Rightarrow> int" where
  "DaysInYear y =
     (if y mod 4 \<noteq> 0 then 365
      else if y mod 100 \<noteq> 0 then 366
      else if y mod 400 \<noteq> 0 then 365
      else 366)"

definition DayFromYear :: "int \<Rightarrow> int" where
  "DayFromYear y =
     365 * (y - 1970) + (y - 1969) div 4 - (y - 1901) div 100 + (y - 1601) div 400"

text \<open>
  \<open>YearFromTime t\<close> is the largest year whose first day is not after \<open>Day t\<close>. The search
  starts from a year that is not after the answer (a year has at most 366 days after
  1970 and at least 365 before) and walks up.
\<close>

definition year_step :: "int \<Rightarrow> int \<Rightarrow> bool" where
  "year_step d y = (DayFromYear (y + 1) \<le> d)"

function year_search :: "int \<Rightarrow> int \<Rightarrow> int" where
  "year_search d y = (if year_step d y then year_search d (y + 1) else y)"
  by pat_completeness auto

definition YearFromTime :: "time \<Rightarrow> int" where
  "YearFromTime t =
     (let d = Day t in year_search d (1970 + min (d div 366) (d div 365)))"

definition InLeapYear :: "time \<Rightarrow> int" where
  "InLeapYear t = (if DaysInYear (YearFromTime t) = 366 then 1 else 0)"

definition DayWithinYear :: "time \<Rightarrow> int" where
  "DayWithinYear t = Day t - DayFromYear (YearFromTime t)"

text \<open>The day number within the year at which month \<open>m\<close> (0 to 11) starts;
  \<open>l\<close> is 1 in a leap year and 0 otherwise.\<close>

definition month_start :: "int \<Rightarrow> int \<Rightarrow> int" where
  "month_start l m =
     (if m = 0 then 0 else if m = 1 then 31 else if m = 2 then 59 + l
      else if m = 3 then 90 + l else if m = 4 then 120 + l else if m = 5 then 151 + l
      else if m = 6 then 181 + l else if m = 7 then 212 + l else if m = 8 then 243 + l
      else if m = 9 then 273 + l else if m = 10 then 304 + l else 334 + l)"

definition MonthFromTime :: "time \<Rightarrow> int" where
  "MonthFromTime t =
     (let d = DayWithinYear t; l = InLeapYear t in
      if d < 31 then 0 else if d < 59 + l then 1 else if d < 90 + l then 2
      else if d < 120 + l then 3 else if d < 151 + l then 4 else if d < 181 + l then 5
      else if d < 212 + l then 6 else if d < 243 + l then 7 else if d < 273 + l then 8
      else if d < 304 + l then 9 else if d < 334 + l then 10 else 11)"

definition DateFromTime :: "time \<Rightarrow> int" where
  "DateFromTime t = DayWithinYear t - month_start (InLeapYear t) (MonthFromTime t) + 1"

definition MakeDay :: "int \<Rightarrow> int \<Rightarrow> int \<Rightarrow> int" where
  "MakeDay year month date =
     (let ym = year + month div 12;
          mn = month mod 12;
          l = (if DaysInYear ym = 366 then 1 else 0)
      in DayFromYear ym + month_start l mn + date - 1)"

definition MakeDate :: "int \<Rightarrow> int \<Rightarrow> time" where
  "MakeDate day tm = day * msPerDay + tm"

definition getDate :: "time \<Rightarrow> int" where
  "getDate t = DateFromTime t"

definition getMonth :: "time \<Rightarrow> int" where
  "getMonth t = MonthFromTime t"

definition setDate :: "time \<Rightarrow> int \<Rightarrow> time" where
  "setDate t dt = MakeDate (MakeDay (YearFromTime t) (MonthFromTime t) dt) (TimeWithinDay t)"

definition setMonth :: "time \<Rightarrow> int \<Rightarrow> time" where
  "setMonth t m = MakeDate (MakeDay (YearFromTime t) m (DateFromTime t)) (TimeWithinDay t)"

definition days_in_month :: "time \<Rightarrow> int" where
  "days_in_month t =
     (let m = MonthFromTime t in
      if m = 1 then 28 + InLeapYear t
      else if m = 3 \<or> m = 5 \<or> m = 8 \<or> m = 10 then 30
      else 31)"

text \<open>
  \<^verbatim>\<open>toISOString\<close>: \<^verbatim>\<open>YYYY-MM-DDTHH:mm:ss.sssZ\<close>, with the year written as a sign and
  six digits when it is not between 0 and 9999.
\<close>

definition digit_char :: "int \<Rightarrow> char" where
  "digit_char d =
     (if d = 0 then CHR ''0'' else if d = 1 then CHR ''1'' else if d = 2 then CHR ''2''
      else if d = 3 then CHR ''3'' else if d = 4 then CHR ''4'' else if d = 5 then CHR ''5''
      else if d = 6 then CHR ''6'' else if d = 7 then CHR ''7'' else if d = 8 then CHR ''8''
      else CHR ''9'')"

fun digits :: "nat \<Rightarrow> int \<Rightarrow> string" where
  "digits 0 x = []"
| "digits (Suc n) x = digits n (x div 10) @ [digit_char (x mod 10)]"

definition HourFromTime :: "time \<Rightarrow> int" where
  "HourFromTime t = (t div 3600000) mod 24"

definition MinFromTime :: "time \<Rightarrow> int" where
  "MinFromTime t = (t div 60000) mod 60"

definition SecFromTime :: "time \<Rightarrow> int" where
  "SecFromTime t = (t div 1000) mod 60"

definition msFromTime :: "time \<Rightarrow> int" where
  "msFromTime t = t mod 1000"

definition year_text :: "int \<Rightarrow> string" where
  "year_text y =
     (if 0 \<le> y \<and> y \<le> 9999 then digits 4 y
      else (if y < 0 then ''-'' else ''+'') @ digits 6 (abs y))"

definition toISOString :: "time \<Rightarrow> string" where
  "toISOString t =
     year_text (YearFromTime t) @ ''-'' @ digits 2 (MonthFromTime t + 1) @ ''-'' @
     digits 2 (DateFromTime t) @ ''T'' @ digits 2 (HourFromTime t) @ '':'' @
     digits 2 (MinFromTime t) @ '':'' @ digits 2 (SecFromTime t) @ ''.'' @
     digits 3 (msFromTime t) @ ''Z''"

text \<open>The instants whose ISO string has the four-digit year.\<close>

definition four_digit_year :: "time \<Rightarrow> bool" where
  "four_digit_year t = (0 \<le> YearFromTime t \<and> YearFromTime t \<le> 9999)"

subsection \<open>Facts about the Date arithmetic\<close>

lemma mod_100_imp_mod_4: "(y::int) mod 100 = 0 \<Longrightarrow> y mod 4 = 0"
proof -
  assume "y mod 100 = 0"
  then have "100 dvd y" by (simp add: dvd_eq_mod_eq_0)
  moreover have "(4::int) dvd 100" by simp
  ultimately have "4 dvd y" by (rule dvd_trans [rotated])
  then show ?thesis by (simp add: dvd_eq_mod_eq_0)
qed
lemma mod_400_imp_mod_100: "(y::int) mod 400 = 0 \<Longrightarrow> y mod 100 = 0"
proof -
  assume "y mod 400 = 0"
  then have "400 dvd y" by (simp add: dvd_eq_mod_eq_0)
  moreover have "(100::int) dvd 400" by simp
  ultimately have "100 dvd y" by (rule dvd_trans [rotated])
  then show ?thesis by (simp add: dvd_eq_mod_eq_0)
qed
lemma mod_shift:
  fixes y k n :: int
  assumes "k mod n = 0"
  shows "((y - k) mod n = 0) = (y mod n = 0)"
proof -
  have "(y - k) mod n = (y mod n - k mod n) mod n" by (simp add: mod_diff_eq)
  also have "\<dots> = y mod n" using assms by simp
  finally show ?thesis by simp
qed

lemma div_step:
  fixes a n :: int
  assumes n: "0 < n"
  shows "(a + 1) div n = a div n + (if (a + 1) mod n = 0 then 1 else 0)"
proof (cases "a mod n + 1 < n")
  case True
  have e: "a + 1 = n * (a div n) + (a mod n + 1)" by simp
  have r0: "0 \<le> a mod n + 1" using n pos_mod_sign [of n a] by linarith
  have d: "(a + 1) div n = a div n"
    using int_div_pos_eq [OF e r0 True] .
  have m: "(a + 1) mod n = a mod n + 1"
    using int_mod_pos_eq [OF e r0 True] .
  have "a mod n + 1 \<noteq> 0" using n pos_mod_sign [of n a] by linarith
  with d m show ?thesis by simp
next
  case False
  have "a mod n < n" using n by simp
  with False have r: "a mod n + 1 = n" by linarith
  have e: "a + 1 = n * (a div n + 1) + 0"
    using r by (metis add.assoc add.right_neutral mult_div_mod_eq distrib_left mult.right_neutral)
  have z: "(0::int) \<le> 0" by simp
  have d: "(a + 1) div n = a div n + 1"
    using int_div_pos_eq [OF e z n] .
  have m: "(a + 1) mod n = 0"
    using int_mod_pos_eq [OF e z n] .
  from d m show ?thesis by simp
qed
lemma div_4_step: "((y::int) + 1 - 1969) div 4 = (y - 1969) div 4 + (if y mod 4 = 0 then 1 else 0)"
proof -
  have "(y - 1969 + 1) div 4 = (y - 1969) div 4 + (if (y - 1969 + 1) mod 4 = 0 then 1 else 0)"
    by (rule div_step) simp
  moreover have "y - 1969 + 1 = y - 1968" by simp
  moreover have "((y - 1968) mod 4 = 0) = (y mod 4 = 0)" by (rule mod_shift) simp
  moreover have "y + 1 - 1969 = y - 1968" by simp
  ultimately show ?thesis by simp
qed
lemma div_100_step: "((y::int) + 1 - 1901) div 100 = (y - 1901) div 100 + (if y mod 100 = 0 then 1 else 0)"
proof -
  have "(y - 1901 + 1) div 100 = (y - 1901) div 100 + (if (y - 1901 + 1) mod 100 = 0 then 1 else 0)"
    by (rule div_step) simp
  moreover have "y - 1901 + 1 = y - 1900" by simp
  moreover have "((y - 1900) mod 100 = 0) = (y mod 100 = 0)" by (rule mod_shift) simp
  moreover have "y + 1 - 1901 = y - 1900" by simp
  ultimately show ?thesis by simp
qed
lemma div_400_step: "((y::int) + 1 - 1601) div 400 = (y - 1601) div 400 + (if y mod 400 = 0 then 1 else 0)"
proof -
  have "(y - 1601 + 1) div 400 = (y - 1601) div 400 + (if (y - 1601 + 1) mod 400 = 0 then 1 else 0)"
    by (rule div_step) simp
  moreover have "y - 1601 + 1 = y - 1600" by simp
  moreover have "((y - 1600) mod 400 = 0) = (y mod 400 = 0)" by (rule mod_shift) simp
  moreover have "y + 1 - 1601 = y - 1600" by simp
  ultimately show ?thesis by simp
qed

lemma DayFromYear_Suc: "DayFromYear (y + 1) = DayFromYear y + DaysInYear y"
proof -
  have e: "DayFromYear (y + 1) = DayFromYear y + 365 + (if y mod 4 = 0 then 1 else 0)
       - (if y mod 100 = 0 then 1 else 0) + (if y mod 400 = 0 then 1 else 0)"
    unfolding DayFromYear_def div_4_step div_100_step div_400_step by (simp only: algebra_simps)
  show ?thesis
  proof (cases "y mod 4 = 0")
    case False
    then have "y mod 100 \<noteq> 0" "y mod 400 \<noteq> 0" using mod_100_imp_mod_4 [of y] mod_400_imp_mod_100 [of y] by auto
    with False e show ?thesis by (simp add: DaysInYear_def)
  next
    case m4: True
    show ?thesis
    proof (cases "y mod 100 = 0")
      case False
      then have "y mod 400 \<noteq> 0" using mod_400_imp_mod_100 [of y] by auto
      with m4 False e show ?thesis by (simp add: DaysInYear_def)
    next
      case m100: True
      show ?thesis
      proof (cases "y mod 400 = 0")
        case False
        with m4 m100 e show ?thesis by (simp add: DaysInYear_def)
      next
        case True
        with m4 m100 e show ?thesis by (simp add: DaysInYear_def)
      qed
    qed
  qed
qed

lemma DaysInYear_bounds: "365 \<le> DaysInYear y \<and> DaysInYear y \<le> 366"
  by (simp add: DaysInYear_def)

termination year_search
proof (relation "measure (\<lambda>(d, y). nat (d - DayFromYear (y + 1) + 1))")
  show "wf (measure (\<lambda>(d, y). nat (d - DayFromYear (y + 1) + 1)))" by simp
next
  fix d y :: int
  assume s: "year_step d y"
  have "DayFromYear (y + 1 + 1) = DayFromYear (y + 1) + DaysInYear (y + 1)"
    by (rule DayFromYear_Suc)
  moreover have "365 \<le> DaysInYear (y + 1)" using DaysInYear_bounds by blast
  moreover have "DayFromYear (y + 1) \<le> d" using s by (simp add: year_step_def)
  ultimately show "((d, y + 1), (d, y)) \<in> measure (\<lambda>(d, y). nat (d - DayFromYear (y + 1) + 1))"
    by simp
qed

declare year_search.simps [simp del]

lemma DayFromYear_1970: "DayFromYear 1970 = 0"
  by (simp add: DayFromYear_def)

lemma DayFromYear_after: "DayFromYear (1970 + int n) \<le> 366 * int n"
proof (induction n)
  case 0
  show ?case by (simp add: DayFromYear_1970)
next
  case (Suc n)
  have "DayFromYear (1970 + int n + 1) = DayFromYear (1970 + int n) + DaysInYear (1970 + int n)"
    by (rule DayFromYear_Suc)
  moreover have "DaysInYear (1970 + int n) \<le> 366" using DaysInYear_bounds by blast
  moreover have "1970 + int (Suc n) = 1970 + int n + 1" by simp
  ultimately show ?case using Suc by simp
qed

lemma DayFromYear_before: "DayFromYear (1970 - int n) \<le> - 365 * int n"
proof (induction n)
  case 0
  show ?case by (simp add: DayFromYear_1970)
next
  case (Suc n)
  have "DayFromYear (1970 - int (Suc n) + 1) = DayFromYear (1970 - int (Suc n)) + DaysInYear (1970 - int (Suc n))"
    by (rule DayFromYear_Suc)
  moreover have "365 \<le> DaysInYear (1970 - int (Suc n))" using DaysInYear_bounds by blast
  moreover have "1970 - int (Suc n) + 1 = 1970 - int n" by simp
  ultimately show ?case using Suc by simp
qed

lemma year_start_le: "DayFromYear (1970 + min (d div 366) (d div 365)) \<le> d"
proof -
  define k where "k = min (d div 366) (d div 365)"
  have k1: "k \<le> d div 366" and k2: "k \<le> d div 365" by (simp_all add: k_def)
  have m1: "366 * (d div 366) \<le> d"
    using mult_div_mod_eq [of 366 d] pos_mod_sign [of 366 d] by linarith
  have m2: "365 * (d div 365) \<le> d"
    using mult_div_mod_eq [of 365 d] pos_mod_sign [of 365 d] by linarith
  have "DayFromYear (1970 + k) \<le> d"
  proof (cases "0 \<le> k")
    case True
    define n where "n = nat k"
    have kn: "k = int n" using True by (simp add: n_def)
    have "DayFromYear (1970 + int n) \<le> 366 * int n" by (rule DayFromYear_after)
    with kn k1 m1 show ?thesis by simp
  next
    case False
    define n where "n = nat (- k)"
    have kn: "k = - int n" using False by (simp add: n_def)
    have "DayFromYear (1970 - int n) \<le> - 365 * int n" by (rule DayFromYear_before)
    with kn k2 m2 show ?thesis by simp
  qed
  then show ?thesis by (simp add: k_def)
qed

lemma year_search_spec:
  "DayFromYear y \<le> d \<Longrightarrow>
   DayFromYear (year_search d y) \<le> d \<and> d < DayFromYear (year_search d y + 1)"
proof (induction d y rule: year_search.induct)
  case (1 d y)
  show ?case
  proof (cases "year_step d y")
    case True
    then have "DayFromYear (y + 1) \<le> d" by (simp add: year_step_def)
    moreover have "year_search d y = year_search d (y + 1)"
      using True by (subst year_search.simps) simp
    ultimately show ?thesis using "1.IH" [OF True] by simp
  next
    case False
    then have "d < DayFromYear (y + 1)" by (simp add: year_step_def)
    moreover have "year_search d y = y"
      using False by (subst year_search.simps) simp
    ultimately show ?thesis using "1.prems" by simp
  qed
qed

lemma YearFromTime_spec:
  "DayFromYear (YearFromTime t) \<le> Day t \<and> Day t < DayFromYear (YearFromTime t + 1)"
  unfolding YearFromTime_def Let_def by (rule year_search_spec) (rule year_start_le)

lemma DayWithinYear_range: "0 \<le> DayWithinYear t \<and> DayWithinYear t < 365 + InLeapYear t"
proof -
  have "DayFromYear (YearFromTime t + 1) = DayFromYear (YearFromTime t) + DaysInYear (YearFromTime t)"
    by (rule DayFromYear_Suc)
  moreover have "DaysInYear (YearFromTime t) = 365 + InLeapYear t"
    by (simp add: InLeapYear_def DaysInYear_def)
  ultimately show ?thesis using YearFromTime_spec [of t] by (simp add: DayWithinYear_def)
qed

lemma MonthFromTime_range: "0 \<le> MonthFromTime t \<and> MonthFromTime t \<le> 11"
  by (simp add: MonthFromTime_def Let_def)

lemma Day_TimeWithinDay: "MakeDate (Day t) (TimeWithinDay t) = t"
  by (simp add: MakeDate_def Day_def TimeWithinDay_def)

lemma MakeDay_same_month:
  "MakeDay (YearFromTime t) (MonthFromTime t) dt = Day t + (dt - DateFromTime t)"
proof -
  have d: "MonthFromTime t div 12 = 0" and m: "MonthFromTime t mod 12 = MonthFromTime t"
    using MonthFromTime_range [of t] by simp_all
  show ?thesis
    unfolding MakeDay_def Let_def d m
    by (simp add: DateFromTime_def DayWithinYear_def InLeapYear_def)
qed

lemma setDate_getDate_plus: "setDate t (getDate t + n) = t + n * msPerDay"
proof -
  have "setDate t (getDate t + n) = MakeDate (Day t + n) (TimeWithinDay t)"
    by (simp add: setDate_def getDate_def MakeDay_same_month)
  also have "\<dots> = MakeDate (Day t) (TimeWithinDay t) + n * msPerDay"
    by (simp add: MakeDate_def algebra_simps)
  finally show ?thesis by (simp add: Day_TimeWithinDay)
qed

lemma MakeDay_next_month:
  "MakeDay (YearFromTime t) (MonthFromTime t + 1) (DateFromTime t) = Day t + days_in_month t"
proof (cases "MonthFromTime t = 11")
  case True
  have "DayFromYear (YearFromTime t + 1) = DayFromYear (YearFromTime t) + DaysInYear (YearFromTime t)"
    by (rule DayFromYear_Suc)
  moreover have "DaysInYear (YearFromTime t) = 365 + InLeapYear t"
    by (simp add: InLeapYear_def DaysInYear_def)
  ultimately show ?thesis using True
    by (simp add: MakeDay_def DateFromTime_def DayWithinYear_def days_in_month_def month_start_def)
next
  case False
  then have r: "0 \<le> MonthFromTime t + 1" "MonthFromTime t + 1 < 12"
    using MonthFromTime_range [of t] by simp_all
  have d: "(MonthFromTime t + 1) div 12 = 0" and m: "(MonthFromTime t + 1) mod 12 = MonthFromTime t + 1"
    using r by simp_all
  have "MonthFromTime t \<in> {0, 1, 2, 3, 4, 5, 6, 7, 8, 9, 10, 11}"
    by (simp add: MonthFromTime_def Let_def)
  with False have c: "MonthFromTime t \<in> {0, 1, 2, 3, 4, 5, 6, 7, 8, 9, 10}"
    by simp
  have "month_start (InLeapYear t) (MonthFromTime t + 1)
          = month_start (InLeapYear t) (MonthFromTime t) + days_in_month t"
    using c by (auto simp: month_start_def days_in_month_def)
  then show ?thesis
    unfolding MakeDay_def Let_def d m
    by (simp add: DateFromTime_def DayWithinYear_def InLeapYear_def)
qed

lemma setMonth_getMonth_plus_1: "setMonth t (getMonth t + 1) = t + days_in_month t * msPerDay"
proof -
  have "setMonth t (getMonth t + 1) = MakeDate (Day t + days_in_month t) (TimeWithinDay t)"
    by (simp add: setMonth_def getMonth_def MakeDay_next_month)
  also have "\<dots> = MakeDate (Day t) (TimeWithinDay t) + days_in_month t * msPerDay"
    by (simp add: MakeDate_def algebra_simps)
  finally show ?thesis by (simp add: Day_TimeWithinDay)
qed

lemma days_in_month_range: "28 \<le> days_in_month t \<and> days_in_month t \<le> 31"
  by (simp add: days_in_month_def InLeapYear_def Let_def)

subsection \<open>Facts about the ISO strings\<close>

lemma length_digits [simp]: "length (digits n x) = n"
  by (induction n arbitrary: x) simp_all

lemma digit_cases:
  "0 \<le> d \<Longrightarrow> d \<le> 9 \<Longrightarrow>
   d = 0 \<or> d = 1 \<or> d = 2 \<or> d = 3 \<or> d = 4 \<or> d = 5 \<or> d = 6 \<or> d = 7 \<or> d = 8 \<or> d = (9::int)"
  by arith

lemma digit_char_less:
  "0 \<le> d \<Longrightarrow> d \<le> 9 \<Longrightarrow> 0 \<le> e \<Longrightarrow> e \<le> 9 \<Longrightarrow> (digit_char d < digit_char e) = (d < e)"
  using digit_cases [of d] digit_cases [of e] by (auto simp: digit_char_def)

lemma digit_char_eq:
  "0 \<le> d \<Longrightarrow> d \<le> 9 \<Longrightarrow> 0 \<le> e \<Longrightarrow> e \<le> 9 \<Longrightarrow> (digit_char d = digit_char e) = (d = e)"
  using digit_cases [of d] digit_cases [of e] by (auto simp: digit_char_def)

lemma append_less_append:
  "length a = length b \<Longrightarrow> (a @ u < b @ v) = (a < b \<or> (a = b \<and> u < (v :: 'a :: order list)))"
  by (induction a b rule: list_induct2) auto

lemma append_le_append:
  "length a = length b \<Longrightarrow> (a @ u \<le> b @ v) = (a < b \<or> (a = b \<and> u \<le> (v :: 'a :: order list)))"
  by (induction a b rule: list_induct2) auto

lemma less_by_digits:
  fixes x y :: int
  shows "(x < y) = (x div 10 < y div 10 \<or> (x div 10 = y div 10 \<and> x mod 10 < y mod 10))"
proof -
  have x: "x = 10 * (x div 10) + x mod 10" "0 \<le> x mod 10" "x mod 10 < 10" by simp_all
  have y: "y = 10 * (y div 10) + y mod 10" "0 \<le> y mod 10" "y mod 10 < 10" by simp_all
  show ?thesis
  proof
    assume "x < y"
    with x y have "10 * (x div 10) + x mod 10 < 10 * (y div 10) + y mod 10" by linarith
    with x(2,3) y(2,3) show "x div 10 < y div 10 \<or> (x div 10 = y div 10 \<and> x mod 10 < y mod 10)"
      by linarith
  next
    assume "x div 10 < y div 10 \<or> (x div 10 = y div 10 \<and> x mod 10 < y mod 10)"
    with x(2,3) y(2,3) have "10 * (x div 10) + x mod 10 < 10 * (y div 10) + y mod 10" by linarith
    with x(1) y(1) show "x < y" by linarith
  qed
qed

lemma eq_by_digits:
  fixes x y :: int
  shows "(x = y) = (x div 10 = y div 10 \<and> x mod 10 = y mod 10)"
  by (metis mult_div_mod_eq)

lemma div10_range:
  fixes x :: int
  assumes "0 \<le> x" "x < 10 ^ Suc n"
  shows "0 \<le> x div 10 \<and> x div 10 < 10 ^ n"
proof -
  have "x = 10 * (x div 10) + x mod 10" "0 \<le> x mod 10" by simp_all
  moreover have "x < 10 * 10 ^ n" using assms(2) by simp
  ultimately show ?thesis using assms(1) by (simp add: pos_imp_zdiv_nonneg_iff)
qed

lemma digits_less_eq:
  "0 \<le> x \<Longrightarrow> x < 10 ^ n \<Longrightarrow> 0 \<le> y \<Longrightarrow> y < 10 ^ n \<Longrightarrow>
   (digits n x < digits n y) = (x < y) \<and> (digits n x = digits n y) = (x = y)"
proof (induction n arbitrary: x y)
  case 0
  then show ?case by simp
next
  case (Suc n)
  note rx = div10_range [OF Suc.prems(1,2)] and ry = div10_range [OF Suc.prems(3,4)]
  from rx ry have ih: "(digits n (x div 10) < digits n (y div 10)) = (x div 10 < y div 10)"
    "(digits n (x div 10) = digits n (y div 10)) = (x div 10 = y div 10)"
    using Suc.IH [of "x div 10" "y div 10"] by simp_all
  have mx: "0 \<le> x mod 10" "x mod 10 \<le> 9" and my: "0 \<le> y mod 10" "y mod 10 \<le> 9"
    using pos_mod_bound [of 10 x] pos_mod_bound [of 10 y] by simp_all
  note dl = digit_char_less [OF mx my] and de = digit_char_eq [OF mx my]
  have l: "(digits (Suc n) x < digits (Suc n) y) = (x < y)"
    by (simp add: append_less_append ih dl less_by_digits [of x y])
  have e: "(digits (Suc n) x = digits (Suc n) y) = (x = y)"
    by (simp add: ih de eq_by_digits [of x y])
  from l e show ?case by simp
qed

lemma iso_examples:
  "toISOString 1706659200000 = ''2024-01-31T00:00:00.000Z''"
  "toISOString 1000 = ''1970-01-01T00:00:01.000Z''"
  "toISOString 253402300800000 = ''+010000-01-01T00:00:00.000Z''"
  "toISOString (-1) = ''1969-12-31T23:59:59.999Z''"
  "toISOString (-62198755200000) = ''-000001-01-01T00:00:00.000Z''"
  by code_simp+

lemma time_fields:
  "TimeWithinDay t =
     3600000 * HourFromTime t + 60000 * MinFromTime t + 1000 * SecFromTime t + msFromTime t"
proof -
  have a: "t mod (1000 * 60) = 1000 * (t div 1000 mod 60) + t mod 1000"
    by (rule zmod_zmult2_eq) simp
  have b: "t mod (60000 * 60) = 60000 * (t div 60000 mod 60) + t mod 60000"
    by (rule zmod_zmult2_eq) simp
  have c: "t mod (3600000 * 24) = 3600000 * (t div 3600000 mod 24) + t mod 3600000"
    by (rule zmod_zmult2_eq) simp
  from a b c show ?thesis
    by (simp add: TimeWithinDay_def msPerDay_def HourFromTime_def MinFromTime_def
        SecFromTime_def msFromTime_def)
qed

lemma time_field_ranges:
  "0 \<le> HourFromTime t" "HourFromTime t \<le> 23" "0 \<le> MinFromTime t" "MinFromTime t \<le> 59"
  "0 \<le> SecFromTime t" "SecFromTime t \<le> 59" "0 \<le> msFromTime t" "msFromTime t \<le> 999"
  using pos_mod_bound [of 24 "t div 3600000"] pos_mod_bound [of 60 "t div 60000"]
    pos_mod_bound [of 60 "t div 1000"] pos_mod_bound [of 1000 t]
  by (simp_all add: HourFromTime_def MinFromTime_def SecFromTime_def msFromTime_def)

lemma InLeapYear_cases: "InLeapYear t = 0 \<or> InLeapYear t = 1"
  by (simp add: InLeapYear_def)

lemma DateFromTime_range: "1 \<le> DateFromTime t \<and> DateFromTime t \<le> 31"
  using DayWithinYear_range [of t] InLeapYear_cases [of t]
  by (auto simp: DateFromTime_def MonthFromTime_def month_start_def Let_def)

lemma month_le_iff:
  assumes "m \<in> {0, 1, 2, 3, 4, 5, 6, 7, 8, 9, 10}"
  shows "(MonthFromTime t \<le> m) = (DayWithinYear t < month_start (InLeapYear t) (m + 1))"
  using assms InLeapYear_cases [of t]
  by (auto simp: MonthFromTime_def month_start_def Let_def)

lemma month_less_imp_day_less:
  assumes y: "YearFromTime t = YearFromTime t'" and m: "MonthFromTime t < MonthFromTime t'"
  shows "Day t < Day t'"
proof -
  have l: "InLeapYear t = InLeapYear t'" using y by (simp add: InLeapYear_def)
  have "MonthFromTime t \<in> {0, 1, 2, 3, 4, 5, 6, 7, 8, 9, 10, 11}"
    by (simp add: MonthFromTime_def Let_def)
  moreover have "MonthFromTime t' \<le> 11" using MonthFromTime_range by blast
  ultimately have c: "MonthFromTime t \<in> {0, 1, 2, 3, 4, 5, 6, 7, 8, 9, 10}" using m by auto
  have "DayWithinYear t < month_start (InLeapYear t) (MonthFromTime t + 1)"
    using month_le_iff [OF c, of t] by simp
  moreover have "\<not> DayWithinYear t' < month_start (InLeapYear t') (MonthFromTime t + 1)"
    using month_le_iff [OF c, of t'] m by simp
  ultimately have "DayWithinYear t < DayWithinYear t'" using l by simp
  then show ?thesis using y by (simp add: DayWithinYear_def)
qed

lemma DayFromYear_mono: "y \<le> y' \<Longrightarrow> DayFromYear y \<le> DayFromYear y'"
proof -
  assume "y \<le> y'"
  then obtain n where "y' = y + int n" by (metis zle_iff_zadd)
  moreover have "DayFromYear y \<le> DayFromYear (y + int n)"
  proof (induction n)
    case 0
    show ?case by simp
  next
    case (Suc n)
    have s: "DayFromYear (y + int n + 1) = DayFromYear (y + int n) + DaysInYear (y + int n)"
      by (rule DayFromYear_Suc)
    have b: "365 \<le> DaysInYear (y + int n)" using DaysInYear_bounds by blast
    have e: "y + int (Suc n) = y + int n + 1" by simp
    show ?case unfolding e using s b Suc by linarith
  qed
  ultimately show ?thesis by simp
qed

lemma year_less_imp_day_less:
  assumes "YearFromTime t < YearFromTime t'"
  shows "Day t < Day t'"
proof -
  have "Day t < DayFromYear (YearFromTime t + 1)" using YearFromTime_spec by blast
  also have "\<dots> \<le> DayFromYear (YearFromTime t')" using assms by (intro DayFromYear_mono) simp
  also have "\<dots> \<le> Day t'" using YearFromTime_spec by blast
  finally show ?thesis .
qed

lemma date_less_imp_day_less:
  assumes "YearFromTime t = YearFromTime t'" "MonthFromTime t = MonthFromTime t'"
    and "DateFromTime t < DateFromTime t'"
  shows "Day t < Day t'"
  using assms by (simp add: DateFromTime_def DayWithinYear_def InLeapYear_def)

lemma date_eq_imp_day_eq:
  assumes "YearFromTime t = YearFromTime t'" "MonthFromTime t = MonthFromTime t'"
    and "DateFromTime t = DateFromTime t'"
  shows "Day t = Day t'"
  using assms by (simp add: DateFromTime_def DayWithinYear_def InLeapYear_def)

lemma day_less_imp_less:
  assumes "Day t < Day t'" shows "t < t'"
proof -
  have a: "t = Day t * msPerDay + TimeWithinDay t" "TimeWithinDay t < msPerDay"
    by (simp_all add: Day_def TimeWithinDay_def msPerDay_def)
  have b: "t' = Day t' * msPerDay + TimeWithinDay t'" "0 \<le> TimeWithinDay t'"
    by (simp_all add: Day_def TimeWithinDay_def msPerDay_def)
  from assms have "Day t + 1 \<le> Day t'" by simp
  then have "(Day t + 1) * msPerDay \<le> Day t' * msPerDay"
    by (rule mult_right_mono) (simp add: msPerDay_def)
  with a b show ?thesis by (simp add: algebra_simps)
qed

lemma within_day_le:
  assumes "HourFromTime t < HourFromTime t' \<or> (HourFromTime t = HourFromTime t' \<and>
     (MinFromTime t < MinFromTime t' \<or> (MinFromTime t = MinFromTime t' \<and>
       (SecFromTime t < SecFromTime t' \<or> (SecFromTime t = SecFromTime t' \<and>
          msFromTime t \<le> msFromTime t')))))"
  shows "TimeWithinDay t \<le> TimeWithinDay t'"
  using assms time_field_ranges [of t] time_field_ranges [of t']
  unfolding time_fields by linarith

lemma toISOString_le_imp_le:
  assumes f: "four_digit_year t" and f': "four_digit_year t'"
    and le: "toISOString t \<le> toISOString t'"
  shows "t \<le> t'"
proof -
  have p: "(10::int) ^ 4 = 10000" "(10::int) ^ 2 = 100" "(10::int) ^ 3 = 1000" by simp_all
  have y: "(digits 4 (YearFromTime t) < digits 4 (YearFromTime t')) = (YearFromTime t < YearFromTime t')"
    "(digits 4 (YearFromTime t) = digits 4 (YearFromTime t')) = (YearFromTime t = YearFromTime t')"
    using f f' digits_less_eq [of "YearFromTime t" 4 "YearFromTime t'"]
    by (simp_all add: four_digit_year_def p)
  have m: "(digits 2 (MonthFromTime t + 1) < digits 2 (MonthFromTime t' + 1)) = (MonthFromTime t < MonthFromTime t')"
    "(digits 2 (MonthFromTime t + 1) = digits 2 (MonthFromTime t' + 1)) = (MonthFromTime t = MonthFromTime t')"
    using MonthFromTime_range [of t] MonthFromTime_range [of t']
      digits_less_eq [of "MonthFromTime t + 1" 2 "MonthFromTime t' + 1"]
    by (auto simp: p)
  have d: "(digits 2 (DateFromTime t) < digits 2 (DateFromTime t')) = (DateFromTime t < DateFromTime t')"
    "(digits 2 (DateFromTime t) = digits 2 (DateFromTime t')) = (DateFromTime t = DateFromTime t')"
    using DateFromTime_range [of t] DateFromTime_range [of t']
      digits_less_eq [of "DateFromTime t" 2 "DateFromTime t'"]
    by (simp_all add: p)
  have h: "(digits 2 (HourFromTime t) < digits 2 (HourFromTime t')) = (HourFromTime t < HourFromTime t')"
    "(digits 2 (HourFromTime t) = digits 2 (HourFromTime t')) = (HourFromTime t = HourFromTime t')"
    using time_field_ranges [of t] time_field_ranges [of t']
      digits_less_eq [of "HourFromTime t" 2 "HourFromTime t'"]
    by (simp_all add: p)
  have mi: "(digits 2 (MinFromTime t) < digits 2 (MinFromTime t')) = (MinFromTime t < MinFromTime t')"
    "(digits 2 (MinFromTime t) = digits 2 (MinFromTime t')) = (MinFromTime t = MinFromTime t')"
    using time_field_ranges [of t] time_field_ranges [of t']
      digits_less_eq [of "MinFromTime t" 2 "MinFromTime t'"]
    by (simp_all add: p)
  have s: "(digits 2 (SecFromTime t) < digits 2 (SecFromTime t')) = (SecFromTime t < SecFromTime t')"
    "(digits 2 (SecFromTime t) = digits 2 (SecFromTime t')) = (SecFromTime t = SecFromTime t')"
    using time_field_ranges [of t] time_field_ranges [of t']
      digits_less_eq [of "SecFromTime t" 2 "SecFromTime t'"]
    by (simp_all add: p)
  have ms: "(digits 3 (msFromTime t) < digits 3 (msFromTime t')) = (msFromTime t < msFromTime t')"
    "(digits 3 (msFromTime t) = digits 3 (msFromTime t')) = (msFromTime t = msFromTime t')"
    using time_field_ranges [of t] time_field_ranges [of t']
      digits_less_eq [of "msFromTime t" 3 "msFromTime t'"]
    by (simp_all add: p)
  have yt: "year_text (YearFromTime t) = digits 4 (YearFromTime t)"
    "year_text (YearFromTime t') = digits 4 (YearFromTime t')"
    using f f' by (simp_all add: year_text_def four_digit_year_def)
  from le have n:
    "YearFromTime t < YearFromTime t' \<or> (YearFromTime t = YearFromTime t' \<and>
     (MonthFromTime t < MonthFromTime t' \<or> (MonthFromTime t = MonthFromTime t' \<and>
      (DateFromTime t < DateFromTime t' \<or> (DateFromTime t = DateFromTime t' \<and>
       (HourFromTime t < HourFromTime t' \<or> (HourFromTime t = HourFromTime t' \<and>
        (MinFromTime t < MinFromTime t' \<or> (MinFromTime t = MinFromTime t' \<and>
         (SecFromTime t < SecFromTime t' \<or> (SecFromTime t = SecFromTime t' \<and>
            msFromTime t \<le> msFromTime t')))))))))))"
    unfolding toISOString_def yt
    by (simp add: append_le_append y m d h mi s ms) (auto simp: le_less)
  have split: "t = Day t * msPerDay + TimeWithinDay t" "t' = Day t' * msPerDay + TimeWithinDay t'"
    by (simp_all add: Day_def TimeWithinDay_def)
  consider (year) "YearFromTime t < YearFromTime t'"
    | (month) "YearFromTime t = YearFromTime t'" "MonthFromTime t < MonthFromTime t'"
    | (date) "YearFromTime t = YearFromTime t'" "MonthFromTime t = MonthFromTime t'"
        "DateFromTime t < DateFromTime t'"
    | (time) "YearFromTime t = YearFromTime t'" "MonthFromTime t = MonthFromTime t'"
        "DateFromTime t = DateFromTime t'"
        "HourFromTime t < HourFromTime t' \<or> (HourFromTime t = HourFromTime t' \<and>
         (MinFromTime t < MinFromTime t' \<or> (MinFromTime t = MinFromTime t' \<and>
          (SecFromTime t < SecFromTime t' \<or> (SecFromTime t = SecFromTime t' \<and>
             msFromTime t \<le> msFromTime t')))))"
    using n by fastforce
  then show ?thesis
  proof cases
    case year
    from day_less_imp_less [OF year_less_imp_day_less [OF year]] show ?thesis by simp
  next
    case month
    from day_less_imp_less [OF month_less_imp_day_less [OF month]] show ?thesis by simp
  next
    case date
    from day_less_imp_less [OF date_less_imp_day_less [OF date]] show ?thesis by simp
  next
    case time
    from date_eq_imp_day_eq [OF time(1,2,3)] within_day_le [OF time(4)] split
    show ?thesis by simp
  qed
qed

lemma toISOString_inj:
  assumes "four_digit_year t" and "four_digit_year t'" and "toISOString t = toISOString t'"
  shows "t = t'"
proof -
  from assms(3) have "toISOString t \<le> toISOString t'" "toISOString t' \<le> toISOString t"
    by simp_all
  from toISOString_le_imp_le [OF assms(1,2) this(1)] toISOString_le_imp_le [OF assms(2,1) this(2)]
  show ?thesis by simp
qed

lemma toISOString_mono:
  assumes "four_digit_year t" and "four_digit_year t'" and "t \<le> t'"
  shows "toISOString t \<le> toISOString t'"
proof (rule ccontr)
  assume "\<not> toISOString t \<le> toISOString t'"
  then have "toISOString t' \<le> toISOString t" by simp
  from toISOString_le_imp_le [OF assms(2,1) this] assms(3) have "t = t'" by simp
  with \<open>\<not> toISOString t \<le> toISOString t'\<close> show False by simp
qed

section \<open>Data model\<close>

text \<open>
  A configuration value as the handler meets it in a field of a task: undefined, null
  (a column that is NULL), a decoded object, or the text that \<^verbatim>\<open>JSON.stringify\<close> gives
  for a value. \<open>Json_text v\<close> is the string \<^verbatim>\<open>JSON.stringify(v)\<close>; being a string, it has
  none of the properties of the object it encodes. \<^verbatim>\<open>JSON.stringify(undefined)\<close> is
  undefined, and every other value gives a string.
\<close>

datatype 'a stored = Undefined | Null | Object 'a | Json_text "'a stored"

definition stringify :: "'a stored \<Rightarrow> 'a stored" where
  "stringify v = (case v of Undefined \<Rightarrow> Undefined | Null \<Rightarrow> Json_text v
                  | Object a \<Rightarrow> Json_text v | Json_text u \<Rightarrow> Json_text v)"

text \<open>\<^verbatim>\<open>v?.p\<close>: the property \<open>p\<close> of a decoded object, and undefined (\<open>None\<close>) for
  undefined, null and a string.\<close>

definition optional_chain :: "('a \<Rightarrow> 'b option) \<Rightarrow> 'a stored \<Rightarrow> 'b option" where
  "optional_chain p v =
     (case v of Undefined \<Rightarrow> None | Null \<Rightarrow> None | Object a \<Rightarrow> p a
      | Json_text u \<Rightarrow> None)"

text \<open>\<^verbatim>\<open>v || {}\<close>: the empty object for undefined and null; an object and a JSON text
  are truthy.\<close>

definition or_empty :: "'a list stored \<Rightarrow> 'a list stored" where
  "or_empty v =
     (case v of Undefined \<Rightarrow> Object [] | Null \<Rightarrow> Object [] | Object a \<Rightarrow> v
      | Json_text u \<Rightarrow> v)"

text \<open>
  A decoded \<^verbatim>\<open>cycle_config\<close>. The period is the string the code compares; \<open>end_time\<close> is
  the time value that \<^verbatim>\<open>new Date\<close> gives to the object's \<^verbatim>\<open>end_time\<close>, \<open>None\<close> when the
  property is absent, empty or not a date.
\<close>

record cycle_cfg =
  period :: "string option"
  end_time :: "time option"

text \<open>
  A task object: a row of the table \<^verbatim>\<open>task\<close> as \<^verbatim>\<open>queryDueTasks\<close> hands it to the
  dispatch loop. \<^verbatim>\<open>insertTask\<close> and \<^verbatim>\<open>updateTask\<close> write \<open>channel_config\<close> and
  \<open>cycle_config\<close> as JSON text, and no function of the source decodes a row, so the rows
  of the table carry \<open>Json_text\<close> (or \<open>Null\<close>) in these two fields.
  \<open>execute_time\<close>, \<open>create_time\<close> and \<open>update_time\<close> are the stored text: what the client
  sent or what \<^verbatim>\<open>toISOString\<close> wrote. \<open>type\<close> and \<open>channel\<close> are the strings the code
  compares them with. The bodies of the requests, where the receiver overrides of
  \<open>channel_config\<close> go, are not part of the model. The field \<^verbatim>\<open>id\<close> is \<open>task_id\<close> here.
\<close>

record task =
  task_id :: string
  name :: string
  content :: string
  channel :: string
  channel_config :: "(string \<times> string) list stored"
  status :: bool
  type :: string
  execute_time :: string
  cycle_config :: "cycle_cfg stored"
  create_time :: string
  update_time :: string
  execute_count :: int

text \<open>An entry of \<^verbatim>\<open>config.notification_channels\<close>: the fields the two senders read.\<close>

record channel_cfg =
  send_key :: "string option"
  api_prefix :: "string option"
  corp_id :: "string option"
  app_secret :: "string option"
  agent_id :: "string option"
  default_receiver :: "(string \<times> string) list"

record retry_cfg =
  max_retry :: int
  retry_interval :: int

text \<open>
  The parsed configuration. \<open>notification_channels\<close> is \<open>None\<close> when the key is missing
  from the stored configuration or is not an object; the handler checks it. \<open>retry_config\<close>
  is \<open>None\<close> when the stored configuration has no such object; the handler does not
  check it. (A \<^verbatim>\<open>retry_config\<close> without \<^verbatim>\<open>max_retry\<close> behaves as one with
  \<open>max_retry = 0\<close>: both comparisons with the undefined value are false.)
\<close>

record config =
  notification_channels :: "(string \<rightharpoonup> channel_cfg) option"
  retry_config :: "retry_cfg option"

text \<open>
  What a provider answers to one \<^verbatim>\<open>fetch\<close>: no usable answer (the request or the
  decoding of its body rejects), or a body with its status code (\<^verbatim>\<open>code\<close>, \<^verbatim>\<open>errcode\<close>)
  and its text (\<^verbatim>\<open>message\<close>, \<^verbatim>\<open>errmsg\<close>, or the \<^verbatim>\<open>access_token\<close> of a token reply).
\<close>

datatype reply = NetFail | Reply int string

text \<open>Every error the scheduled handler and the senders can raise. \<open>TypeError\<close> names
  the property that is read from an undefined value, \<open>ReferenceError\<close> the identifier
  that is not bound.\<close>

datatype error =
    ConfigMissing
  | ChannelsNotAnObject
  | UnknownChannel string
  | MissingSendKey
  | InvalidSctpSendKey
  | ServerChanRejected string
  | MissingWechatCredentials
  | WechatTokenRejected string
  | WechatPushRejected string
  | TransportError
  | ReferenceError string
  | TypeError string
  | DbError

text \<open>
  The message templates of \<^verbatim>\<open>executeResult.message\<close>: the empty initial message, the
  first attempt's success message with the serialised provider response (\<open>None\<close> prints
  as \<^verbatim>\<open>undefined\<close>), the success message of retry number \<open>n\<close>, and the failure
  message after \<open>n\<close> retries with the last error.
\<close>

datatype message =
    Msg_empty
  | Msg_push_ok "reply option"
  | Msg_retry_ok int
  | Msg_retry_failed int error

record executeResult =
  res_status :: string
  res_message :: message

text \<open>A row of the table \<^verbatim>\<open>log\<close>, without its random id and its wall-clock duration.\<close>

record log =
  log_task_id :: string
  log_channel :: string
  log_execute_time :: string
  log_status :: string
  log_message :: message

text \<open>What the handler does to the outside, in order.\<close>

datatype event =
    Call_sender string
  | Fetch string
  | Sleep int
  | Query string
  | Update task
  | Insert log
  | Console_error error

text \<open>
  The world the handler runs in: the two tables, what the providers will answer to the
  coming fetches (none left: no usable answer), for each kind of database statement
  whether the coming ones reject (\<open>True\<close>; none left: the statement runs), and the
  events so far.
\<close>

record world =
  task_table :: "task list"
  log_table :: "log list"
  replies :: "reply list"
  query_faults :: "bool list"
  update_faults :: "bool list"
  insert_faults :: "bool list"
  trace :: "event list"

section \<open>Task repository\<close>

definition emit :: "event \<Rightarrow> world \<Rightarrow> world" where
  "emit e w = w\<lparr>trace := trace w @ [e]\<rparr>"

text \<open>The condition of the due query on one row: the stored \<open>execute_time\<close> is compared
  with the bound string as text.\<close>

definition due :: "string \<Rightarrow> task \<Rightarrow> bool" where
  "due currentTime t = (status t \<and> execute_time t \<le> currentTime)"

text \<open>\<^verbatim>\<open>SELECT * FROM task WHERE status = TRUE AND execute_time <= ? ORDER BY execute_time ASC\<close>\<close>

definition select_due :: "task list \<Rightarrow> string \<Rightarrow> task list" where
  "select_due rows currentTime = sort_key execute_time (filter (due currentTime) rows)"

definition queryDueTasks :: "string \<Rightarrow> world \<Rightarrow> (error + task list) \<times> world" where
  "queryDueTasks currentTime w0 =
     (let w = emit (Query currentTime) w0 in
      case query_faults w of
        [] \<Rightarrow> (Inr (select_due (task_table w) currentTime), w)
      | bad # fs \<Rightarrow>
          if bad then (Inl DbError, w\<lparr>query_faults := fs\<rparr>)
          else (Inr (select_due (task_table w) currentTime), w\<lparr>query_faults := fs\<rparr>))"

text \<open>What \<^verbatim>\<open>updateTask\<close> (and \<^verbatim>\<open>insertTask\<close>) bind for a task: the two configurations
  go through \<^verbatim>\<open>JSON.stringify\<close>.\<close>

definition stored_row :: "task \<Rightarrow> task" where
  "stored_row t =
     t\<lparr>channel_config := stringify (channel_config t),
       cycle_config := stringify (cycle_config t)\<rparr>"

text \<open>\<^verbatim>\<open>UPDATE task SET name = ?, ..., execute_count = ? WHERE id = ?\<close>: every column but
  \<open>id\<close> and \<open>create_time\<close> is written.\<close>

definition write_row :: "task \<Rightarrow> task \<Rightarrow> task" where
  "write_row t r =
     (if task_id r = task_id t then (stored_row t)\<lparr>create_time := create_time r\<rparr> else r)"

definition updateTask :: "task \<Rightarrow> world \<Rightarrow> (error + unit) \<times> world" where
  "updateTask t w0 =
     (let w = emit (Update t) w0 in
      case update_faults w of
        [] \<Rightarrow> (Inr (), w\<lparr>task_table := map (write_row t) (task_table w)\<rparr>)
      | bad # fs \<Rightarrow>
          if bad then (Inl DbError, w\<lparr>update_faults := fs\<rparr>)
          else (Inr (), w\<lparr>update_faults := fs, task_table := map (write_row t) (task_table w)\<rparr>))"

definition insertTaskLog :: "log \<Rightarrow> world \<Rightarrow> (error + unit) \<times> world" where
  "insertTaskLog l w0 =
     (let w = emit (Insert l) w0 in
      case insert_faults w of
        [] \<Rightarrow> (Inr (), w\<lparr>log_table := log_table w @ [l]\<rparr>)
      | bad # fs \<Rightarrow>
          if bad then (Inl DbError, w\<lparr>insert_faults := fs\<rparr>)
          else (Inr (), w\<lparr>insert_faults := fs, log_table := log_table w @ [l]\<rparr>))"

section \<open>Recurrence: updateTaskAfterSuccess\<close>

text \<open>
  \<open>updateTaskAfterSuccess\<close> first changes the task object it is given (\<open>advance\<close>: the
  status, the execution count, the update time and the next execution time) and then
  writes the object with \<open>updateTask\<close>. The changed object is returned with the outcome
  of the write: the caller keeps the object whether the write rejects or not.

  \<^verbatim>\<open>task.cycle_config?.period\<close> and \<^verbatim>\<open>task.cycle_config?.end_time\<close> are undefined unless
  \<open>cycle_config\<close> is a decoded object (\<open>optional_chain\<close>). \<open>now\<close> is \<^verbatim>\<open>new Date(currentTime)\<close>.
\<close>

definition advance :: "task \<Rightarrow> time \<Rightarrow> task" where
  "advance task0 now =
     (let nextExecuteTime0 = execute_time task0;
          (task1, nextExecuteTime) =
            (if type task0 = ''single'' then (task0\<lparr>status := False\<rparr>, nextExecuteTime0)
             else if type task0 = ''cycle'' then
               (let period' = optional_chain period (cycle_config task0);
                    endDate = optional_chain end_time (cycle_config task0)
                in if (case endDate of None \<Rightarrow> False | Some e \<Rightarrow> e \<le> now)
                   then (task0\<lparr>status := False\<rparr>, nextExecuteTime0)
                   else
                     (task0,
                      if period' = Some ''day'' then
                        toISOString (setDate now (getDate now + 1))
                      else if period' = Some ''week'' then
                        toISOString (setDate now (getDate now + 7))
                      else if period' = Some ''month'' then
                        toISOString (setMonth now (getMonth now + 1))
                      else nextExecuteTime0))
             else (task0, nextExecuteTime0))
      in task1\<lparr>execute_count := execute_count task1 + 1,
                update_time := toISOString now,
                execute_time := nextExecuteTime\<rparr>)"

definition updateTaskAfterSuccess ::
  "task \<Rightarrow> time \<Rightarrow> world \<Rightarrow> (error + unit) \<times> task \<times> world" where
  "updateTaskAfterSuccess task0 now w =
     (let task2 = advance task0 now;
          (r, w') = updateTask task2 w
      in (r, task2, w'))"

section \<open>Channel senders\<close>

definition fetch :: "string \<Rightarrow> world \<Rightarrow> reply \<times> world" where
  "fetch url w0 =
     (let w = emit (Fetch url) w0 in
      case replies w of
        [] \<Rightarrow> (NetFail, w)
      | r # rs \<Rightarrow> (r, w\<lparr>replies := rs\<rparr>))"

text \<open>\<^verbatim>\<open>!x\<close> for an optional string: absent or empty.\<close>

definition falsy :: "string option \<Rightarrow> bool" where
  "falsy x = (x = None \<or> x = Some [])"

text \<open>An optional string inside a template literal.\<close>

definition interpolate :: "string option \<Rightarrow> string" where
  "interpolate x = (case x of None \<Rightarrow> ''undefined'' | Some s \<Rightarrow> s)"

definition is_digit :: "char \<Rightarrow> bool" where
  "is_digit c = (c \<in> set ''0123456789'')"

text \<open>\<^verbatim>\<open>/sctp(\d+)/.exec(s)\<close>: the capture group of the leftmost match, the longest run
  of digits after the leftmost \<^verbatim>\<open>sctp\<close> that a digit follows.\<close>

fun exec_sctp :: "string \<Rightarrow> string option" where
  "exec_sctp [] = None"
| "exec_sctp (c # cs) =
     (if prefix ''sctp'' (c # cs) \<and> takeWhile is_digit (drop 4 (c # cs)) \<noteq> []
      then Some (takeWhile is_digit (drop 4 (c # cs)))
      else exec_sctp cs)"

text \<open>
  The same pattern in the words of its description: the string matches when it holds
  \<^verbatim>\<open>sctp\<close> followed by a digit. \<open>exec_sctp\<close> is compared with it below
  (\<open>exec_sctp_None_iff\<close>, \<open>exec_sctp_Some\<close>).
\<close>

definition matches_sctp :: "string \<Rightarrow> bool" where
  "matches_sctp s = (\<exists>pre d post. s = pre @ ''sctp'' @ d # post \<and> is_digit d)"

text \<open>The endpoint of \<^verbatim>\<open>sendByServerChan\<close>: everything it does before its request.\<close>

definition pushUrl :: "channel_cfg \<Rightarrow> error + string" where
  "pushUrl channelConfig =
     (if falsy (send_key channelConfig) then Inl MissingSendKey
      else
        (let key = the (send_key channelConfig) in
         if prefix ''sctp'' key then
           (case exec_sctp key of
              None \<Rightarrow> Inl InvalidSctpSendKey
            | Some serverNum \<Rightarrow>
                Inr (''https://'' @ serverNum @ ''.push.ft07.com/send/'' @ key @ ''.send''))
         else Inr (interpolate (api_prefix channelConfig) @ key @ ''.send'')))"

definition sendByServerChan ::
  "string \<Rightarrow> channel_cfg \<Rightarrow> string \<Rightarrow> world \<Rightarrow> (error + reply) \<times> world" where
  "sendByServerChan content' channelConfig title w0 =
     (let w = emit (Call_sender ''sendByServerChan'') w0 in
      case pushUrl channelConfig of
        Inl e \<Rightarrow> (Inl e, w)
      | Inr url \<Rightarrow>
          (case fetch url w of
             (NetFail, w') \<Rightarrow> (Inl TransportError, w')
           | (Reply code text, w') \<Rightarrow>
               if code \<noteq> 0 then (Inl (ServerChanRejected text), w')
               else (Inr (Reply code text), w')))"

definition sendByWechatWork ::
  "string \<Rightarrow> channel_cfg \<Rightarrow> (string \<times> string) list stored \<Rightarrow> world
     \<Rightarrow> (error + reply) \<times> world" where
  "sendByWechatWork content' channelConfig taskChannelConfig w0 =
     (let w = emit (Call_sender ''sendByWechatWork'') w0 in
      if falsy (corp_id channelConfig) \<or> falsy (app_secret channelConfig)
         \<or> falsy (agent_id channelConfig)
      then (Inl MissingWechatCredentials, w)
      else
        (case fetch (''https://qyapi.weixin.qq.com/cgi-bin/gettoken?corpid=''
                      @ interpolate (corp_id channelConfig) @ ''&corpsecret=''
                      @ interpolate (app_secret channelConfig)) w of
           (NetFail, w1) \<Rightarrow> (Inl TransportError, w1)
         | (Reply errcode text, w1) \<Rightarrow>
             if errcode \<noteq> 0 then (Inl (WechatTokenRejected text), w1)
             else
               (case fetch (''https://qyapi.weixin.qq.com/cgi-bin/message/send?access_token=''
                             @ text) w1 of
                  (NetFail, w2) \<Rightarrow> (Inl TransportError, w2)
                | (Reply errcode2 text2, w2) \<Rightarrow>
                    if errcode2 \<noteq> 0 then (Inl (WechatPushRejected text2), w2)
                    else (Inr (Reply errcode2 text2), w2))))"

section \<open>Dispatch engine: handleScheduledTasks\<close>

text \<open>
  The body of the loop over the due tasks has three parts: the \<^verbatim>\<open>try\<close> block with the
  first attempt, the \<^verbatim>\<open>catch\<close> block with the retry loop, and the \<^verbatim>\<open>finally\<close> block
  that inserts the log row. Each part is a function here; an error that a part lets
  through is its \<open>Inl\<close> result.
\<close>

definition initial_result :: executeResult where
  "initial_result = \<lparr>res_status = ''fail'', res_message = Msg_empty\<rparr>"

text \<open>\<^verbatim>\<open>config.notification_channels[task.channel]\<close>, once the handler has checked that
  \<^verbatim>\<open>notification_channels\<close> is an object.\<close>

definition lookup_channel :: "config \<Rightarrow> string \<Rightarrow> channel_cfg option" where
  "lookup_channel cfg c = (case notification_channels cfg of None \<Rightarrow> None | Some m \<Rightarrow> m c)"

text \<open>The choice of the sender in the first attempt; a channel that is neither of the
  two leaves \<^verbatim>\<open>pushResponse\<close> undefined (\<open>None\<close>).\<close>

definition push :: "task \<Rightarrow> channel_cfg \<Rightarrow> world \<Rightarrow> (error + reply option) \<times> world" where
  "push t channelConfig w =
     (if channel t = ''server_chan'' then
        (case sendByServerChan (content t) channelConfig (name t) w of
           (Inl e, w') \<Rightarrow> (Inl e, w')
         | (Inr r, w') \<Rightarrow> (Inr (Some r), w'))
      else if channel t = ''wechat_work'' then
        (case sendByWechatWork (content t) channelConfig (or_empty (channel_config t)) w of
           (Inl e, w') \<Rightarrow> (Inl e, w')
         | (Inr r, w') \<Rightarrow> (Inr (Some r), w'))
      else (Inr None, w))"

text \<open>The \<^verbatim>\<open>try\<close> block: channel lookup, one send, and on success the success result
  and \<open>updateTaskAfterSuccess\<close>. \<^verbatim>\<open>executeResult\<close> is assigned before the update runs.\<close>

definition first_attempt ::
  "config \<Rightarrow> time \<Rightarrow> task \<Rightarrow> world \<Rightarrow> (error + unit) \<times> executeResult \<times> task \<times> world" where
  "first_attempt cfg now t w =
     (case lookup_channel cfg (channel t) of
        None \<Rightarrow> (Inl (UnknownChannel (channel t)), initial_result, t, w)
      | Some channelConfig \<Rightarrow>
          (case push t channelConfig w of
             (Inl e, w1) \<Rightarrow> (Inl e, initial_result, t, w1)
           | (Inr pushResponse, w1) \<Rightarrow>
               (let executeResult =
                      \<lparr>res_status = ''success'', res_message = Msg_push_ok pushResponse\<rparr>;
                    (r, t', w2) = updateTaskAfterSuccess t now w1
                in (r, executeResult, t', w2))))"

text \<open>
  The inner \<^verbatim>\<open>try\<close> block of one retry. \<^verbatim>\<open>channelConfig\<close> is declared with \<^verbatim>\<open>const\<close>
  inside the outer \<^verbatim>\<open>try\<close> block, so the \<^verbatim>\<open>catch\<close> block that holds the retry loop is
  outside its scope and no enclosing scope binds the name: evaluating the arguments of
  either sender call raises a ReferenceError before the sender is entered. A channel that
  is neither of the two evaluates no such argument.
\<close>

definition retry_attempt ::
  "time \<Rightarrow> int \<Rightarrow> executeResult \<Rightarrow> task \<Rightarrow> world
     \<Rightarrow> (error + unit) \<times> executeResult \<times> task \<times> world" where
  "retry_attempt now retryCount executeResult t w =
     (if channel t = ''server_chan'' then
        (Inl (ReferenceError ''channelConfig''), executeResult, t, w)
      else if channel t = ''wechat_work'' then
        (Inl (ReferenceError ''channelConfig''), executeResult, t, w)
      else
        (let executeResult' =
               \<lparr>res_status = ''success'', res_message = Msg_retry_ok retryCount\<rparr>;
             (r, t', w') = updateTaskAfterSuccess t now w
         in (r, executeResult', t', w')))"

text \<open>
  The \<^verbatim>\<open>while\<close> loop of the \<^verbatim>\<open>catch\<close> block, from the state in which the loop test
  is evaluated. The test reads \<^verbatim>\<open>config.retry_config.max_retry\<close>: without a
  \<^verbatim>\<open>retry_config\<close> it raises a TypeError, in the \<^verbatim>\<open>catch\<close> block and outside the inner
  \<^verbatim>\<open>try\<close>, so the error leaves the loop body once the \<^verbatim>\<open>finally\<close> block has run.
\<close>

function retry_loop ::
  "config \<Rightarrow> time \<Rightarrow> int \<Rightarrow> executeResult \<Rightarrow> task \<Rightarrow> world
     \<Rightarrow> (error + unit) \<times> executeResult \<times> task \<times> world" where
  "retry_loop cfg now retryCount executeResult t w =
     (case retry_config cfg of
        None \<Rightarrow> (Inl (TypeError ''max_retry''), executeResult, t, w)
      | Some rc \<Rightarrow>
          if retryCount < max_retry rc then
            (case retry_attempt now (retryCount + 1) executeResult t
                    (emit (Sleep (retry_interval rc)) w) of
               (Inr u, executeResult', t', w') \<Rightarrow> (Inr (), executeResult', t', w')
             | (Inl retryError, executeResult', t', w') \<Rightarrow>
                 retry_loop cfg now (retryCount + 1)
                   (if retryCount + 1 \<ge> max_retry rc
                    then executeResult'\<lparr>res_message :=
                                           Msg_retry_failed (retryCount + 1) retryError\<rparr>
                    else executeResult')
                   t' w')
          else (Inr (), executeResult, t, w))"
  by pat_completeness auto
termination
  by (relation "measure (\<lambda>(cfg, now, retryCount, executeResult, t, w).
                   nat ((case retry_config cfg of None \<Rightarrow> 0 | Some rc \<Rightarrow> max_retry rc)
                        - retryCount))") auto

declare retry_loop.simps [simp del]

text \<open>The \<^verbatim>\<open>try\<close> and \<^verbatim>\<open>catch\<close> blocks together; \<open>Inl\<close> is an error that the \<^verbatim>\<open>catch\<close>
  block itself raises.\<close>

definition try_catch ::
  "config \<Rightarrow> time \<Rightarrow> task \<Rightarrow> world \<Rightarrow> (error + unit) \<times> executeResult \<times> task \<times> world" where
  "try_catch cfg now t w =
     (case first_attempt cfg now t w of
        (Inr u, executeResult, t', w') \<Rightarrow> (Inr (), executeResult, t', w')
      | (Inl e, executeResult, t', w') \<Rightarrow> retry_loop cfg now 0 executeResult t' w')"

text \<open>The result, the task object and the world with which the \<^verbatim>\<open>finally\<close> block
  starts.\<close>

definition attempts ::
  "config \<Rightarrow> time \<Rightarrow> task \<Rightarrow> world \<Rightarrow> executeResult \<times> task \<times> world" where
  "attempts cfg now t w = snd (try_catch cfg now t w)"

text \<open>The log row of the \<^verbatim>\<open>finally\<close> block.\<close>

definition log_of :: "time \<Rightarrow> executeResult \<Rightarrow> task \<Rightarrow> log" where
  "log_of now executeResult t =
     \<lparr>log_task_id = task_id t, log_channel = channel t,
      log_execute_time = toISOString now,
      log_status = res_status executeResult, log_message = res_message executeResult\<rparr>"

text \<open>One pass of the loop body. The \<^verbatim>\<open>finally\<close> block runs in every case; an error of
  its log insert leaves the body, and otherwise an error pending from the \<^verbatim>\<open>catch\<close>
  block does.\<close>

definition dispatch_task :: "config \<Rightarrow> time \<Rightarrow> task \<Rightarrow> world \<Rightarrow> (error + unit) \<times> world" where
  "dispatch_task cfg now t w =
     (case try_catch cfg now t w of
        (pending, executeResult, t', w') \<Rightarrow>
          (case insertTaskLog (log_of now executeResult t') w' of
             (Inl e, w'') \<Rightarrow> (Inl e, w'')
           | (Inr u, w'') \<Rightarrow>
               (case pending of Inl e \<Rightarrow> (Inl e, w'') | Inr u' \<Rightarrow> (Inr (), w''))))"

fun for_each_task :: "config \<Rightarrow> time \<Rightarrow> task list \<Rightarrow> world \<Rightarrow> (error + unit) \<times> world" where
  "for_each_task cfg now [] w = (Inr (), w)"
| "for_each_task cfg now (t # rest) w =
     (case dispatch_task cfg now t w of
        (Inl e, w') \<Rightarrow> (Inl e, w')
      | (Inr u, w') \<Rightarrow> for_each_task cfg now rest w')"

text \<open>The stored configuration is absent (\<open>None\<close>) or parses to a configuration.\<close>

definition loadAppConfig :: "config option \<Rightarrow> error + config" where
  "loadAppConfig stored = (case stored of None \<Rightarrow> Inl ConfigMissing | Some cfg \<Rightarrow> Inr cfg)"

text \<open>The body of the outer \<^verbatim>\<open>try\<close> block; \<open>now\<close> is the instant the handler reads
  from the clock, and \<^verbatim>\<open>currentTime\<close> is its ISO string.\<close>

definition scheduled_body ::
  "config option \<Rightarrow> time \<Rightarrow> world \<Rightarrow> (error + unit) \<times> world" where
  "scheduled_body stored now w =
     (case loadAppConfig stored of
        Inl e \<Rightarrow> (Inl e, w)
      | Inr cfg \<Rightarrow>
          if notification_channels cfg = None then (Inl ChannelsNotAnObject, w)
          else
            (case queryDueTasks (toISOString now) w of
               (Inl e, w1) \<Rightarrow> (Inl e, w1)
             | (Inr dueTasks, w1) \<Rightarrow> for_each_task cfg now dueTasks w1))"

text \<open>The outer \<^verbatim>\<open>catch\<close> block prints the error and the handler returns.\<close>

definition handleScheduledTasks :: "config option \<Rightarrow> time \<Rightarrow> world \<Rightarrow> world" where
  "handleScheduledTasks stored now w =
     (case scheduled_body stored now w of
        (Inl e, w') \<Rightarrow> emit (Console_error e) w'
      | (Inr u, w') \<Rightarrow> w')"

section \<open>Observations on a run\<close>

text \<open>Which events are task updates, sender calls and retry delays; which channels have
  a sender; whether the first attempt of a task raises before the success result is
  assigned (the channel has no entry, or the sender raises); the object that a
  configuration value is or encodes (\<open>configured\<close>), and whether the value is a decoded
  object (\<open>is_object\<close>).\<close>

fun is_update :: "event \<Rightarrow> bool" where
  "is_update (Update t) = True"
| "is_update e = False"

fun is_call :: "event \<Rightarrow> bool" where
  "is_call (Call_sender s) = True"
| "is_call e = False"

fun is_sleep :: "event \<Rightarrow> bool" where
  "is_sleep (Sleep n) = True"
| "is_sleep e = False"

definition known_channel :: "task \<Rightarrow> bool" where
  "known_channel t = (channel t = ''server_chan'' \<or> channel t = ''wechat_work'')"

definition first_send_fails :: "config \<Rightarrow> task \<Rightarrow> world \<Rightarrow> bool" where
  "first_send_fails cfg t w =
     (case lookup_channel cfg (channel t) of
        None \<Rightarrow> True
      | Some cc \<Rightarrow> (case fst (push t cc w) of Inl e \<Rightarrow> True | Inr pr \<Rightarrow> False))"

fun configured :: "'a stored \<Rightarrow> 'a option" where
  "configured Undefined = None"
| "configured Null = None"
| "configured (Object a) = Some a"
| "configured (Json_text v) = configured v"

fun is_object :: "'a stored \<Rightarrow> bool" where
  "is_object (Object a) = True"
| "is_object v = False"

section \<open>Example inputs\<close>

text \<open>A server-push channel, a configuration with two retries, and a one-shot task on
  that channel, as a row of the table; it falls due one second after the epoch.\<close>

definition demo_channel :: channel_cfg where
  "demo_channel =
     \<lparr>send_key = Some ''SCT1'', api_prefix = Some ''https://sctapi.ftqq.com/'',
      corp_id = None, app_secret = None, agent_id = None, default_receiver = []\<rparr>"

definition demo_config :: config where
  "demo_config =
     \<lparr>notification_channels = Some [''server_chan'' \<mapsto> demo_channel],
      retry_config = Some \<lparr>max_retry = 2, retry_interval = 10\<rparr>\<rparr>"

definition demo_task :: task where
  "demo_task =
     \<lparr>task_id = ''a'', name = ''n'', content = ''c'', channel = ''server_chan'',
      channel_config = Json_text (Object []), status = True, type = ''single'',
      execute_time = ''1970-01-01T00:00:01.000Z'', cycle_config = Null,
      create_time = ''1970-01-01T00:00:00.000Z'',
      update_time = ''1970-01-01T00:00:00.000Z'', execute_count = 0\<rparr>"

text \<open>A world with the given task rows and provider answers, empty log, a database
  that runs every statement, and no events yet.\<close>

definition world_of :: "task list \<Rightarrow> reply list \<Rightarrow> world" where
  "world_of rows answers =
     \<lparr>task_table = rows, log_table = [], replies = answers, query_faults = [],
      update_faults = [], insert_faults = [], trace = []\<rparr>"

text \<open>
  Variants of the task, with the \<open>cycle_config\<close> as the table holds it: a weekly task
  without end, a daily task that ends 1.5 seconds after the epoch, a task on a channel
  that the first configuration does not list, and a second task on the server-push
  channel; a configuration that lists that other channel too, and one without
  \<open>retry_config\<close>.
\<close>

definition demo_cycle :: task where
  "demo_cycle =
     demo_task\<lparr>type := ''cycle'',
               cycle_config := Json_text (Object \<lparr>period = Some ''week'', end_time = None\<rparr>)\<rparr>"

definition demo_ended :: task where
  "demo_ended =
     demo_task\<lparr>type := ''cycle'',
               cycle_config :=
                 Json_text (Object \<lparr>period = Some ''day'', end_time = Some 1500\<rparr>)\<rparr>"

definition demo_email :: task where
  "demo_email = demo_task\<lparr>channel := ''email''\<rparr>"

definition demo_second :: task where
  "demo_second = demo_task\<lparr>task_id := ''b''\<rparr>"

definition demo_config_email :: config where
  "demo_config_email =
     \<lparr>notification_channels =
        Some [''server_chan'' \<mapsto> demo_channel, ''email'' \<mapsto> demo_channel],
      retry_config = Some \<lparr>max_retry = 2, retry_interval = 10\<rparr>\<rparr>"

definition demo_config_no_retry :: config where
  "demo_config_no_retry =
     \<lparr>notification_channels = Some [''server_chan'' \<mapsto> demo_channel],
      retry_config = None\<rparr>"

section \<open>Facts about the recurrence and the repository\<close>

lemma stringify_not_object: "\<not> is_object (stringify v)"
  by (cases v) (simp_all add: stringify_def)

lemma optional_chain_not_object: "\<not> is_object v \<Longrightarrow> optional_chain p v = None"
  by (cases v) (simp_all add: optional_chain_def)

lemma stored_row_fields:
  "task_id (stored_row t) = task_id t" "status (stored_row t) = status t"
  "type (stored_row t) = type t" "execute_time (stored_row t) = execute_time t"
  "execute_count (stored_row t) = execute_count t" "update_time (stored_row t) = update_time t"
  "channel (stored_row t) = channel t"
  "\<not> is_object (cycle_config (stored_row t))" "\<not> is_object (channel_config (stored_row t))"
  by (simp_all add: stored_row_def stringify_not_object)

lemma advance_fixed:
  "task_id (advance t now) = task_id t" "channel t = channel (advance t now)"
  "type (advance t now) = type t" "cycle_config (advance t now) = cycle_config t"
  "create_time (advance t now) = create_time t"
  "execute_count (advance t now) = execute_count t + 1"
  "update_time (advance t now) = toISOString now"
  by (simp_all add: advance_def Let_def split: prod.splits)

lemma advance_single:
  "type t = ''single'' \<Longrightarrow> \<not> status (advance t now) \<and> execute_time (advance t now) = execute_time t"
  by (simp add: advance_def)

text \<open>What \<open>advance\<close> does to a \<^verbatim>\<open>cycle\<close> task whose \<open>cycle_config\<close> is a decoded
  object: the task ends, or its next execution time is one period after \<open>now\<close>.\<close>

lemma advance_cycle_ended:
  "type t = ''cycle'' \<Longrightarrow> cycle_config t = Object c \<Longrightarrow> end_time c = Some e \<Longrightarrow> e \<le> now
   \<Longrightarrow> \<not> status (advance t now) \<and> execute_time (advance t now) = execute_time t"
  by (simp add: advance_def optional_chain_def)

lemma advance_cycle_next:
  assumes "type t = ''cycle''" "cycle_config t = Object c"
    and "end_time c = None \<or> (\<exists>e. end_time c = Some e \<and> now < e)"
  shows "status (advance t now) = status t"
    and "period c = Some ''day'' \<Longrightarrow> execute_time (advance t now) = toISOString (now + msPerDay)"
    and "period c = Some ''week'' \<Longrightarrow>
           execute_time (advance t now) = toISOString (now + 7 * msPerDay)"
    and "period c = Some ''month'' \<Longrightarrow>
           execute_time (advance t now) = toISOString (now + days_in_month now * msPerDay)"
  using assms
  by (auto simp: advance_def optional_chain_def Let_def setDate_getDate_plus setMonth_getMonth_plus_1)

text \<open>What it does when \<open>cycle_config\<close> is anything else, as in every row that
  \<open>insertTask\<close> or \<open>updateTask\<close> wrote: neither the end nor the period is seen.\<close>

lemma advance_cycle_undecoded:
  "type t = ''cycle'' \<Longrightarrow> \<not> is_object (cycle_config t) \<Longrightarrow>
   status (advance t now) = status t \<and> execute_time (advance t now) = execute_time t"
  by (simp add: advance_def optional_chain_not_object)

lemma updateTask_ok:
  "update_faults w = [] \<Longrightarrow>
   updateTask t w = (Inr (), w\<lparr>trace := trace w @ [Update t], task_table := map (write_row t) (task_table w)\<rparr>)"
  by (simp add: updateTask_def emit_def)

lemma insertTaskLog_ok:
  "insert_faults w = [] \<Longrightarrow>
   insertTaskLog l w = (Inr (), w\<lparr>trace := trace w @ [Insert l], log_table := log_table w @ [l]\<rparr>)"
  by (simp add: insertTaskLog_def emit_def)

lemma updateTaskAfterSuccess_ok:
  "update_faults w = [] \<Longrightarrow>
   updateTaskAfterSuccess t now w =
     (Inr (), advance t now,
      w\<lparr>trace := trace w @ [Update (advance t now)],
        task_table := map (write_row (advance t now)) (task_table w)\<rparr>)"
  by (simp add: updateTaskAfterSuccess_def updateTask_ok Let_def)

lemma retry_attempt_known:
  "known_channel t \<Longrightarrow>
   retry_attempt now n ex t w = (Inl (ReferenceError ''channelConfig''), ex, t, w)"
  by (auto simp: retry_attempt_def known_channel_def)

text \<open>The retry loop, one step at a time.\<close>

lemma retry_loop_no_config:
  "retry_config cfg = None \<Longrightarrow>
   retry_loop cfg now n ex t w = (Inl (TypeError ''max_retry''), ex, t, w)"
  by (subst retry_loop.simps) simp

lemma retry_loop_done:
  "retry_config cfg = Some rc \<Longrightarrow> \<not> n < max_retry rc \<Longrightarrow>
   retry_loop cfg now n ex t w = (Inr (), ex, t, w)"
  by (subst retry_loop.simps) simp

lemma retry_loop_succeeds:
  "retry_config cfg = Some rc \<Longrightarrow> n < max_retry rc \<Longrightarrow>
   retry_attempt now (n + 1) ex t (emit (Sleep (retry_interval rc)) w) = (Inr u, ex1, t1, w1) \<Longrightarrow>
   retry_loop cfg now n ex t w = (Inr (), ex1, t1, w1)"
  by (subst retry_loop.simps) simp

lemma retry_loop_again:
  "retry_config cfg = Some rc \<Longrightarrow> n < max_retry rc \<Longrightarrow>
   retry_attempt now (n + 1) ex t (emit (Sleep (retry_interval rc)) w) = (Inl e, ex1, t1, w1) \<Longrightarrow>
   retry_loop cfg now n ex t w =
     retry_loop cfg now (n + 1)
       (if max_retry rc \<le> n + 1 then ex1\<lparr>res_message := Msg_retry_failed (n + 1) e\<rparr> else ex1)
       t1 w1"
  by (subst retry_loop.simps) simp

lemma retry_loop_known:
  assumes k: "known_channel t" and c: "retry_config cfg = Some rc"
  shows "retry_loop cfg now n ex t w =
     (Inr (),
      if n < max_retry rc
      then ex\<lparr>res_message := Msg_retry_failed (max_retry rc) (ReferenceError ''channelConfig'')\<rparr>
      else ex,
      t,
      w\<lparr>trace := trace w @ replicate (nat (max_retry rc - n)) (Sleep (retry_interval rc))\<rparr>)"
proof (induction "nat (max_retry rc - n)" arbitrary: n ex w)
  case 0
  then have "\<not> n < max_retry rc" by simp
  then show ?case using retry_loop_done [OF c] by simp
next
  case (Suc k)
  let ?m = "max_retry rc"
  let ?s = "Sleep (retry_interval rc)"
  let ?e = "ReferenceError ''channelConfig''"
  let ?ex = "if ?m \<le> n + 1 then ex\<lparr>res_message := Msg_retry_failed (n + 1) ?e\<rparr> else ex"
  from Suc(2) have lt: "n < ?m" and k: "k = nat (?m - (n + 1))" by simp_all
  have n: "nat (?m - n) = Suc (nat (?m - (n + 1)))" using lt by simp
  have ra: "retry_attempt now (n + 1) ex t (emit ?s w) = (Inl ?e, ex, t, emit ?s w)"
    using assms(1) by (rule retry_attempt_known)
  have "retry_loop cfg now n ex t w = retry_loop cfg now (n + 1) ?ex t (emit ?s w)"
    using retry_loop_again [OF c lt ra] .
  also have "\<dots> = (Inr (),
      if n + 1 < ?m then ?ex\<lparr>res_message := Msg_retry_failed ?m ?e\<rparr> else ?ex, t,
      (emit ?s w)\<lparr>trace := trace (emit ?s w) @ replicate (nat (?m - (n + 1))) ?s\<rparr>)"
    using Suc(1) [OF k] .
  finally have e: "retry_loop cfg now n ex t w = (Inr (),
      if n + 1 < ?m then ?ex\<lparr>res_message := Msg_retry_failed ?m ?e\<rparr> else ?ex, t,
      (emit ?s w)\<lparr>trace := trace (emit ?s w) @ replicate (nat (?m - (n + 1))) ?s\<rparr>)" .
  show ?case
  proof (cases "n + 1 < ?m")
    case True
    with lt n e show ?thesis by (simp add: emit_def)
  next
    case False
    with lt have "?m = n + 1" by simp
    with n e show ?thesis by (simp add: emit_def)
  qed
qed

section \<open>Facts about the senders and the attempts\<close>

lemma fetch_frame:
  "fetch url w = (r, w') \<Longrightarrow>
   task_table w' = task_table w \<and> log_table w' = log_table w \<and>
   update_faults w' = update_faults w \<and> insert_faults w' = insert_faults w \<and>
   filter is_update (trace w') = filter is_update (trace w)"
  by (auto simp: fetch_def emit_def Let_def split: list.splits)

lemma sendByServerChan_frame:
  assumes "sendByServerChan c cc ti w = (r, w')"
  shows "task_table w' = task_table w \<and> log_table w' = log_table w \<and>
   update_faults w' = update_faults w \<and> insert_faults w' = insert_faults w \<and>
   filter is_update (trace w') = filter is_update (trace w)"
proof (cases "pushUrl cc")
  case (Inl e)
  with assms show ?thesis by (auto simp: sendByServerChan_def emit_def Let_def)
next
  case (Inr url)
  obtain r1 w1 where f: "fetch url (emit (Call_sender ''sendByServerChan'') w) = (r1, w1)"
    by (cases "fetch url (emit (Call_sender ''sendByServerChan'') w)") 
  from fetch_frame [OF f] have fr: "task_table w1 = task_table w \<and> log_table w1 = log_table w \<and>
   update_faults w1 = update_faults w \<and> insert_faults w1 = insert_faults w \<and>
   filter is_update (trace w1) = filter is_update (trace w)" by (simp add: emit_def)
  have "w' = w1" using assms Inr f
    by (auto simp: sendByServerChan_def Let_def split: reply.splits if_splits)
  with fr show ?thesis by simp
qed

lemma sendByWechatWork_frame:
  assumes "sendByWechatWork c cc tc w = (r, w')"
  shows "task_table w' = task_table w \<and> log_table w' = log_table w \<and>
   update_faults w' = update_faults w \<and> insert_faults w' = insert_faults w \<and>
   filter is_update (trace w') = filter is_update (trace w)"
proof (cases "falsy (corp_id cc) \<or> falsy (app_secret cc) \<or> falsy (agent_id cc)")
  case True
  with assms show ?thesis by (auto simp: sendByWechatWork_def emit_def Let_def)
next
  case False
  let ?w = "emit (Call_sender ''sendByWechatWork'') w"
  let ?u1 = "''https://qyapi.weixin.qq.com/cgi-bin/gettoken?corpid=''
                      @ interpolate (corp_id cc) @ ''&corpsecret=''
                      @ interpolate (app_secret cc)"
  obtain r1 w1 where f1: "fetch ?u1 ?w = (r1, w1)" by (cases "fetch ?u1 ?w")
  from fetch_frame [OF f1] have fr1: "task_table w1 = task_table w \<and> log_table w1 = log_table w \<and>
   update_faults w1 = update_faults w \<and> insert_faults w1 = insert_faults w \<and>
   filter is_update (trace w1) = filter is_update (trace w)" by (simp add: emit_def)
  show ?thesis
  proof (cases r1)
    case NetFail
    with assms False f1 have "w' = w1" by (auto simp: sendByWechatWork_def Let_def)
    with fr1 show ?thesis by simp
  next
    case (Reply errcode body)
    show ?thesis
    proof (cases "errcode = 0")
      case nz: False
      with assms False f1 Reply have "w' = w1" by (auto simp: sendByWechatWork_def Let_def)
      with fr1 show ?thesis by simp
    next
      case True
      let ?u2 = "''https://qyapi.weixin.qq.com/cgi-bin/message/send?access_token='' @ body"
      obtain r2 w2 where f2: "fetch ?u2 w1 = (r2, w2)" by (cases "fetch ?u2 w1")
      from fetch_frame [OF f2] fr1 have fr2: "task_table w2 = task_table w \<and> log_table w2 = log_table w \<and>
        update_faults w2 = update_faults w \<and> insert_faults w2 = insert_faults w \<and>
        filter is_update (trace w2) = filter is_update (trace w)" by simp
      have "w' = w2" using assms False f1 Reply True f2
        by (auto simp: sendByWechatWork_def Let_def split: reply.splits if_splits)
      with fr2 show ?thesis by simp
    qed
  qed
qed

lemma push_frame:
  assumes "push t cc w = (r, w')"
  shows "task_table w' = task_table w \<and> log_table w' = log_table w \<and>
   update_faults w' = update_faults w \<and> insert_faults w' = insert_faults w \<and>
   filter is_update (trace w') = filter is_update (trace w)"
proof (cases "channel t = ''server_chan''")
  case True
  obtain r1 w1 where s: "sendByServerChan (content t) cc (name t) w = (r1, w1)"
    by (cases "sendByServerChan (content t) cc (name t) w")
  with assms True have "w' = w1" by (auto simp: push_def split: sum.splits)
  with sendByServerChan_frame [OF s] show ?thesis by simp
next
  case False
  show ?thesis
  proof (cases "channel t = ''wechat_work''")
    case True
    obtain r1 w1 where s: "sendByWechatWork (content t) cc (or_empty (channel_config t)) w = (r1, w1)"
      by (cases "sendByWechatWork (content t) cc (or_empty (channel_config t)) w")
    with assms True False have "w' = w1" by (auto simp: push_def split: sum.splits)
    with sendByWechatWork_frame [OF s] show ?thesis by simp
  next
    case f2: False
    with assms False show ?thesis by (simp add: push_def)
  qed
qed

lemma updateTask_logs:
  "updateTask t w = (r, w') \<Longrightarrow> log_table w' = log_table w \<and> insert_faults w' = insert_faults w"
  by (auto simp: updateTask_def emit_def Let_def split: list.splits if_splits)

lemma updateTaskAfterSuccess_logs:
  "updateTaskAfterSuccess t now w = (r, t', w') \<Longrightarrow>
   log_table w' = log_table w \<and> insert_faults w' = insert_faults w \<and>
   task_id t' = task_id t \<and> channel t' = channel t"
  using updateTask_logs [of "advance t now" w] advance_fixed(1,2) [of t now]
  by (auto simp: updateTaskAfterSuccess_def Let_def split: prod.splits)

lemma first_attempt_cases:
  assumes "first_attempt cfg now t w = (r, ex, t', w')"
  obtains (unknown) "lookup_channel cfg (channel t) = None"
      "r = Inl (UnknownChannel (channel t))" "ex = initial_result" "t' = t" "w' = w"
  | (send_failed) cc e where "lookup_channel cfg (channel t) = Some cc"
      "push t cc w = (Inl e, w')" "r = Inl e" "ex = initial_result" "t' = t"
  | (sent) cc pr w1 where "lookup_channel cfg (channel t) = Some cc"
      "push t cc w = (Inr pr, w1)"
      "ex = \<lparr>res_status = ''success'', res_message = Msg_push_ok pr\<rparr>"
      "updateTaskAfterSuccess t now w1 = (r, t', w')"
proof (cases "lookup_channel cfg (channel t)")
  case None
  with assms show ?thesis by (intro unknown) (auto simp: first_attempt_def)
next
  case (Some cc)
  obtain pr w1 where p: "push t cc w = (pr, w1)" by (cases "push t cc w")
  show ?thesis
  proof (cases pr)
    case (Inl e)
    with assms Some p show ?thesis by (intro send_failed [of cc e]) (auto simp: first_attempt_def)
  next
    case (Inr x)
    with assms Some p show ?thesis
      by (intro sent [of cc x w1]) (auto simp: first_attempt_def Let_def split: prod.splits)
  qed
qed

lemma first_attempt_logs:
  assumes "first_attempt cfg now t w = (r, ex, t', w')"
  shows "log_table w' = log_table w \<and> insert_faults w' = insert_faults w \<and>
         task_id t' = task_id t \<and> channel t' = channel t"
  using assms
proof (cases rule: first_attempt_cases)
  case unknown
  then show ?thesis by simp
next
  case (send_failed cc e)
  with push_frame [OF send_failed(2)] show ?thesis by simp
next
  case (sent cc pr w1)
  with push_frame [OF sent(2)] updateTaskAfterSuccess_logs [OF sent(4)] show ?thesis by simp
qed

lemma first_attempt_fail:
  assumes "first_attempt cfg now t w = (r, ex, t', w')" and "res_status ex = ''fail''"
  shows "t' = t \<and> task_table w' = task_table w \<and>
         filter is_update (trace w') = filter is_update (trace w)"
  using assms(1)
proof (cases rule: first_attempt_cases)
  case unknown
  then show ?thesis by simp
next
  case (send_failed cc e)
  with push_frame [OF send_failed(2)] show ?thesis by simp
next
  case (sent cc pr w1)
  with assms(2) show ?thesis by simp
qed

lemma first_attempt_Inr:
  assumes "first_attempt cfg now t w = (Inr u, ex, t', w')"
  shows "res_status ex = ''success''"
  using assms by (cases rule: first_attempt_cases) simp_all

lemma retry_attempt_cases:
  assumes "retry_attempt now n ex t w = (r, ex', t', w')"
  obtains (known) "known_channel t" "r = Inl (ReferenceError ''channelConfig'')"
      "ex' = ex" "t' = t" "w' = w"
  | (other) "\<not> known_channel t"
      "ex' = \<lparr>res_status = ''success'', res_message = Msg_retry_ok n\<rparr>"
      "updateTaskAfterSuccess t now w = (r, t', w')"
proof (cases "known_channel t")
  case True
  with assms retry_attempt_known [OF True, of now n ex w] show ?thesis by (intro known) simp_all
next
  case False
  with assms show ?thesis
    by (intro other) (auto simp: retry_attempt_def known_channel_def Let_def split: prod.splits)
qed

lemma retry_attempt_frame:
  assumes "retry_attempt now n ex t w = (r, ex1, t1, w1)"
  shows "log_table w1 = log_table w \<and> insert_faults w1 = insert_faults w \<and>
         task_id t1 = task_id t \<and> channel t1 = channel t"
  using assms
proof (cases rule: retry_attempt_cases)
  case known
  then show ?thesis by simp
next
  case other
  with updateTaskAfterSuccess_logs [OF other(3)] show ?thesis by simp
qed

lemma retry_loop_logs:
  assumes "retry_loop cfg now n ex t w = (r, ex', t', w')"
  shows "log_table w' = log_table w \<and> insert_faults w' = insert_faults w \<and>
         task_id t' = task_id t \<and> channel t' = channel t"
proof (cases "retry_config cfg")
  case None
  with assms retry_loop_no_config [OF None, of now n ex t w] show ?thesis by simp
next
  case (Some rc)
  let ?m = "max_retry rc"
  show ?thesis
    using assms
  proof (induction "nat (?m - n)" arbitrary: n ex t w)
    case 0
    then have "\<not> n < ?m" by simp
    from retry_loop_done [OF Some this, of now ex t w] 0(2) show ?case by simp
  next
    case (Suc k)
    let ?w = "emit (Sleep (retry_interval rc)) w"
    from Suc(2) have lt: "n < ?m" and k: "k = nat (?m - (n + 1))" by simp_all
    obtain r1 ex1 t1 w1 where ra: "retry_attempt now (n + 1) ex t ?w = (r1, ex1, t1, w1)"
      by (cases "retry_attempt now (n + 1) ex t ?w")
    from retry_attempt_frame [OF ra]
    have fr: "log_table w1 = log_table w \<and> insert_faults w1 = insert_faults w \<and>
              task_id t1 = task_id t \<and> channel t1 = channel t"
      by (simp add: emit_def)
    show ?case
    proof (cases r1)
      case (Inr u)
      with retry_loop_succeeds [OF Some lt, of now ex t w u ex1 t1 w1] ra Suc(3)
      have "t' = t1 \<and> w' = w1" by simp
      with fr show ?thesis by simp
    next
      case (Inl e)
      let ?ex2 = "if ?m \<le> n + 1 then ex1\<lparr>res_message := Msg_retry_failed (n + 1) e\<rparr> else ex1"
      from retry_loop_again [OF Some lt, of now ex t w e ex1 t1 w1] ra Inl Suc(3)
      have rec: "retry_loop cfg now (n + 1) ?ex2 t1 w1 = (r, ex', t', w')" by simp
      from Suc(1) [OF k rec] fr show ?thesis by simp
    qed
  qed
qed

lemma retry_loop_fail:
  assumes "retry_loop cfg now n ex t w = (r, ex', t', w')" and f: "res_status ex' = ''fail''"
  shows "res_status ex = ''fail'' \<and> t' = t \<and> task_table w' = task_table w \<and>
         filter is_update (trace w') = filter is_update (trace w)"
proof (cases "retry_config cfg")
  case None
  with assms retry_loop_no_config [OF None, of now n ex t w] show ?thesis by simp
next
  case (Some rc)
  let ?m = "max_retry rc"
  show ?thesis
    using assms(1)
  proof (induction "nat (?m - n)" arbitrary: n ex t w)
    case 0
    then have "\<not> n < ?m" by simp
    from retry_loop_done [OF Some this, of now ex t w] 0(2) f show ?case by simp
  next
    case (Suc k)
    let ?w = "emit (Sleep (retry_interval rc)) w"
    from Suc(2) have lt: "n < ?m" and k: "k = nat (?m - (n + 1))" by simp_all
    obtain r1 ex1 t1 w1 where ra: "retry_attempt now (n + 1) ex t ?w = (r1, ex1, t1, w1)"
      by (cases "retry_attempt now (n + 1) ex t ?w")
    show ?case
    proof (cases r1)
      case (Inr u)
      with retry_loop_succeeds [OF Some lt, of now ex t w u ex1 t1 w1] ra Suc(3)
      have e: "ex' = ex1" by simp
      from ra Inr have "res_status ex1 = ''success''"
        by (cases rule: retry_attempt_cases) simp_all
      with e f show ?thesis by simp
    next
      case (Inl e)
      let ?ex2 = "if ?m \<le> n + 1 then ex1\<lparr>res_message := Msg_retry_failed (n + 1) e\<rparr> else ex1"
      from retry_loop_again [OF Some lt, of now ex t w e ex1 t1 w1] ra Inl Suc(3)
      have rec: "retry_loop cfg now (n + 1) ?ex2 t1 w1 = (r, ex', t', w')" by simp
      have ih: "res_status ?ex2 = ''fail'' \<and> t' = t1 \<and> task_table w' = task_table w1 \<and>
            filter is_update (trace w') = filter is_update (trace w1)"
        using Suc(1) [OF k rec] .
      then have f1: "res_status ex1 = ''fail''" by (simp split: if_splits)
      from ra have "ex1 = ex \<and> t1 = t \<and> w1 = ?w"
      proof (cases rule: retry_attempt_cases)
        case known
        then show ?thesis by simp
      next
        case other
        with f1 show ?thesis by simp
      qed
      with ih f1 show ?thesis by (simp add: emit_def)
    qed
  qed
qed

lemma retry_loop_result:
  "retry_config cfg = Some rc \<Longrightarrow> fst (retry_loop cfg now n ex t w) = Inr ()"
proof (induction "nat (max_retry rc - n)" arbitrary: n ex t w)
  case 0
  then have "\<not> n < max_retry rc" by simp
  from retry_loop_done [OF 0(2) this] show ?case by simp
next
  case (Suc k)
  let ?w = "emit (Sleep (retry_interval rc)) w"
  from Suc(2) have lt: "n < max_retry rc" and k: "k = nat (max_retry rc - (n + 1))" by simp_all
  obtain r1 ex1 t1 w1 where ra: "retry_attempt now (n + 1) ex t ?w = (r1, ex1, t1, w1)"
    by (cases "retry_attempt now (n + 1) ex t ?w")
  show ?case
  proof (cases r1)
    case (Inr u)
    with retry_loop_succeeds [OF Suc(3) lt, of now ex t w u ex1 t1 w1] ra show ?thesis by simp
  next
    case (Inl e)
    with retry_loop_again [OF Suc(3) lt, of now ex t w e ex1 t1 w1] ra Suc(1) [OF k Suc(3)]
    show ?thesis by simp
  qed
qed

lemma retry_loop_other:
  assumes "\<not> known_channel t" "retry_config cfg = Some rc" "n < max_retry rc"
    "update_faults w = []"
  shows "retry_loop cfg now n ex t w =
     (Inr (), \<lparr>res_status = ''success'', res_message = Msg_retry_ok (n + 1)\<rparr>,
      advance t now,
      w\<lparr>trace := trace w @ [Sleep (retry_interval rc), Update (advance t now)],
        task_table := map (write_row (advance t now)) (task_table w)\<rparr>)"
proof -
  let ?w = "emit (Sleep (retry_interval rc)) w"
  have u: "update_faults ?w = []" using assms(4) by (simp add: emit_def)
  have "retry_attempt now (n + 1) ex t ?w =
     (Inr (), \<lparr>res_status = ''success'', res_message = Msg_retry_ok (n + 1)\<rparr>, advance t now,
      ?w\<lparr>trace := trace ?w @ [Update (advance t now)],
         task_table := map (write_row (advance t now)) (task_table ?w)\<rparr>)"
    using assms(1)
    by (simp add: retry_attempt_def known_channel_def updateTaskAfterSuccess_ok [OF u] Let_def)
  from retry_loop_succeeds [OF assms(2,3) this] show ?thesis by (simp add: emit_def)
qed

text \<open>From a result with status \<^verbatim>\<open>fail\<close>, the loop ends with status \<^verbatim>\<open>fail\<close> exactly
  when no retry reaches its success result.\<close>

lemma retry_loop_status:
  assumes "res_status ex = ''fail''"
  shows "(res_status (fst (snd (retry_loop cfg now 0 ex t w))) = ''fail'') =
         (case retry_config cfg of None \<Rightarrow> True
          | Some rc \<Rightarrow> known_channel t \<or> max_retry rc \<le> 0)"
proof (cases "retry_config cfg")
  case None
  with assms show ?thesis by (simp add: retry_loop_no_config)
next
  case (Some rc)
  show ?thesis
  proof (cases "known_channel t")
    case True
    with assms Some show ?thesis by (simp add: retry_loop_known)
  next
    case False
    show ?thesis
    proof (cases "0 < max_retry rc")
      case nr: False
      with assms Some False show ?thesis by (simp add: retry_loop_done)
    next
      case True
      let ?w = "emit (Sleep (retry_interval rc)) w"
      obtain r1 ex1 t1 w1 where ra: "retry_attempt now (0 + 1) ex t ?w = (r1, ex1, t1, w1)"
        by (cases "retry_attempt now (0 + 1) ex t ?w")
      from ra False have s1: "res_status ex1 = ''success''"
        by (cases rule: retry_attempt_cases) simp_all
      obtain r2 ex2 t2 w2 where rl: "retry_loop cfg now 0 ex t w = (r2, ex2, t2, w2)"
        by (cases "retry_loop cfg now 0 ex t w")
      have "res_status ex2 \<noteq> ''fail''"
      proof (cases r1)
        case (Inr u)
        with retry_loop_succeeds [OF Some True, of now ex t w u ex1 t1 w1] ra rl s1
        show ?thesis by simp
      next
        case (Inl e)
        with retry_loop_again [OF Some True, of now ex t w e ex1 t1 w1] ra rl
        have "retry_loop cfg now (0 + 1)
                (if max_retry rc \<le> 0 + 1
                 then ex1\<lparr>res_message := Msg_retry_failed (0 + 1) e\<rparr> else ex1) t1 w1
              = (r2, ex2, t2, w2)" by simp
        from retry_loop_fail [OF this] s1 show ?thesis by (auto split: if_splits)
      qed
      with rl Some False True show ?thesis by simp
    qed
  qed
qed

lemma try_catch_first_ok:
  "first_attempt cfg now t w = (Inr u, ex, t', w') \<Longrightarrow>
   try_catch cfg now t w = (Inr (), ex, t', w')"
  by (simp add: try_catch_def)

lemma try_catch_first_failed:
  "first_attempt cfg now t w = (Inl e, ex, t', w') \<Longrightarrow>
   try_catch cfg now t w = retry_loop cfg now 0 ex t' w'"
  by (simp add: try_catch_def)

lemma try_catch_result:
  "retry_config cfg = Some rc \<Longrightarrow> fst (try_catch cfg now t w) = Inr ()"
proof -
  assume c: "retry_config cfg = Some rc"
  obtain r ex0 t0 w0 where fa: "first_attempt cfg now t w = (r, ex0, t0, w0)"
    by (cases "first_attempt cfg now t w")
  show ?thesis
  proof (cases r)
    case (Inr u)
    with fa show ?thesis by (simp add: try_catch_def)
  next
    case (Inl e)
    with fa retry_loop_result [OF c, of now 0 ex0 t0 w0] show ?thesis
      by (simp add: try_catch_def)
  qed
qed

lemma attempts_logs:
  assumes "attempts cfg now t w = (ex, t', w')"
  shows "log_table w' = log_table w \<and> insert_faults w' = insert_faults w \<and>
         task_id t' = task_id t \<and> channel t' = channel t"
proof -
  obtain r ex0 t0 w0 where fa: "first_attempt cfg now t w = (r, ex0, t0, w0)"
    by (cases "first_attempt cfg now t w")
  note f = first_attempt_logs [OF fa]
  show ?thesis
  proof (cases r)
    case (Inr u)
    with assms fa f show ?thesis by (simp add: attempts_def try_catch_def)
  next
    case (Inl e)
    with assms fa have "snd (retry_loop cfg now 0 ex0 t0 w0) = (ex, t', w')"
      by (simp add: attempts_def try_catch_def)
    then obtain r1 where "retry_loop cfg now 0 ex0 t0 w0 = (r1, ex, t', w')"
      by (cases "retry_loop cfg now 0 ex0 t0 w0") simp
    from retry_loop_logs [OF this] f show ?thesis by simp
  qed
qed

lemma attempts_fail:
  assumes "attempts cfg now t w = (ex, t', w')" and "res_status ex = ''fail''"
  shows "t' = t \<and> task_table w' = task_table w \<and>
         filter is_update (trace w') = filter is_update (trace w)"
proof -
  obtain r ex0 t0 w0 where fa: "first_attempt cfg now t w = (r, ex0, t0, w0)"
    by (cases "first_attempt cfg now t w")
  show ?thesis
  proof (cases r)
    case (Inr u)
    with assms fa first_attempt_Inr [of cfg now t w u ex0 t0 w0] show ?thesis
      by (simp add: attempts_def try_catch_def)
  next
    case (Inl e)
    with assms fa have "snd (retry_loop cfg now 0 ex0 t0 w0) = (ex, t', w')"
      by (simp add: attempts_def try_catch_def)
    then obtain r1 where "retry_loop cfg now 0 ex0 t0 w0 = (r1, ex, t', w')"
      by (cases "retry_loop cfg now 0 ex0 t0 w0") simp
    from retry_loop_fail [OF this assms(2)] first_attempt_fail [OF fa] show ?thesis by simp
  qed
qed

lemma attempts_success:
  assumes a: "attempts cfg now t w = (ex, t', w')" and s: "res_status ex = ''success''"
    and u: "update_faults w = []"
  shows "t' = advance t now \<and> task_table w' = map (write_row (advance t now)) (task_table w) \<and>
         filter is_update (trace w') = filter is_update (trace w) @ [Update (advance t now)]"
proof -
  obtain r ex0 t0 w0 where fa: "first_attempt cfg now t w = (r, ex0, t0, w0)"
    by (cases "first_attempt cfg now t w")
  have failed_first: ?thesis
    if r: "r = Inl e" and e0: "ex0 = initial_result" and t0: "t0 = t"
      and fr: "task_table w0 = task_table w \<and> update_faults w0 = update_faults w \<and>
               filter is_update (trace w0) = filter is_update (trace w)" for e
  proof -
    from a fa r have rl: "snd (retry_loop cfg now 0 ex0 t0 w0) = (ex, t', w')"
      by (simp add: attempts_def try_catch_def)
    show ?thesis
    proof (cases "retry_config cfg")
      case None
      with rl e0 s show ?thesis by (auto simp: retry_loop_no_config initial_result_def)
    next
      case (Some rc)
      show ?thesis
      proof (cases "known_channel t")
        case True
        with rl t0 e0 s Some show ?thesis
          by (auto simp: retry_loop_known initial_result_def split: if_splits)
      next
        case False
        show ?thesis
        proof (cases "0 < max_retry rc")
          case True
          have "update_faults w0 = []" using fr u by simp
          from retry_loop_other [OF False Some True this, of now ex0] rl t0 fr show ?thesis by auto
        next
          case nr: False
          with rl e0 s retry_loop_done [OF Some nr, of now ex0 t0 w0] show ?thesis
            by (auto simp: initial_result_def)
        qed
      qed
    qed
  qed
  from fa show ?thesis
  proof (cases rule: first_attempt_cases)
    case unknown
    then show ?thesis using failed_first by simp
  next
    case (send_failed cc e)
    with push_frame [OF send_failed(2)] show ?thesis using failed_first by simp
  next
    case (sent cc pr w1)
    from push_frame [OF sent(2)] u have u1: "update_faults w1 = []" by simp
    from sent(4) updateTaskAfterSuccess_ok [OF u1, of t now]
    have "r = Inr ()" "t0 = advance t now"
      "w0 = w1\<lparr>trace := trace w1 @ [Update (advance t now)],
        task_table := map (write_row (advance t now)) (task_table w1)\<rparr>" by auto
    with a fa push_frame [OF sent(2)] show ?thesis by (auto simp: attempts_def try_catch_def)
  qed
qed

text \<open>The attempts end with status \<^verbatim>\<open>fail\<close> exactly when the first attempt raises
  before its success result is assigned and no retry reaches its own.\<close>

lemma attempts_fail_iff:
  "(res_status (fst (attempts cfg now t w)) = ''fail'') =
   (first_send_fails cfg t w \<and>
    (case retry_config cfg of None \<Rightarrow> True
     | Some rc \<Rightarrow> known_channel t \<or> max_retry rc \<le> 0))"
proof -
  obtain r ex0 t0 w0 where fa: "first_attempt cfg now t w = (r, ex0, t0, w0)"
    by (cases "first_attempt cfg now t w")
  have i: "res_status initial_result = ''fail''" by (simp add: initial_result_def)
  from fa show ?thesis
  proof (cases rule: first_attempt_cases)
    case (sent cc pr w1)
    then have nf: "\<not> first_send_fails cfg t w" by (simp add: first_send_fails_def)
    have "res_status (fst (attempts cfg now t w)) \<noteq> ''fail''"
    proof (cases r)
      case (Inr u)
      with fa sent show ?thesis by (auto simp: attempts_def try_catch_def)
    next
      case (Inl e)
      obtain r1 ex1 t1 w1 where rl: "retry_loop cfg now 0 ex0 t0 w0 = (r1, ex1, t1, w1)"
        by (cases "retry_loop cfg now 0 ex0 t0 w0")
      from retry_loop_fail [OF rl] sent(3) have "res_status ex1 \<noteq> ''fail''" by auto
      with Inl fa rl show ?thesis by (simp add: attempts_def try_catch_def)
    qed
    with nf show ?thesis by simp
  next
    case unknown
    then have f: "first_send_fails cfg t w" by (simp add: first_send_fails_def)
    from fa unknown have "attempts cfg now t w = snd (retry_loop cfg now 0 initial_result t w)"
      by (simp add: attempts_def try_catch_def)
    with f retry_loop_status [OF i, of cfg now t w] show ?thesis by simp
  next
    case (send_failed cc e)
    then have f: "first_send_fails cfg t w" by (simp add: first_send_fails_def)
    from fa send_failed have "attempts cfg now t w = snd (retry_loop cfg now 0 initial_result t w0)"
      by (simp add: attempts_def try_catch_def)
    with f retry_loop_status [OF i, of cfg now t w0] show ?thesis by simp
  qed
qed

lemma insertTaskLog_tasks:
  "insertTaskLog l w = (r, w') \<Longrightarrow>
   task_table w' = task_table w \<and>
   filter is_update (trace w') = filter is_update (trace w)"
  by (auto simp: insertTaskLog_def emit_def Let_def split: list.splits if_splits)

section \<open>Facts about a whole dispatch\<close>

lemma select_due_sound:
  "(\<forall>t \<in> set (select_due rows currentTime). status t \<and> execute_time t \<le> currentTime) \<and>
   sorted (map execute_time (select_due rows currentTime))"
  by (simp add: select_due_def due_def)

lemma select_due_rows: "set (select_due rows currentTime) \<subseteq> set rows"
  by (auto simp: select_due_def)

lemma select_due_later:
  "t \<in> set (select_due rows currentTime) \<Longrightarrow> currentTime \<le> currentTime' \<Longrightarrow>
   t \<in> set (select_due rows currentTime')"
  by (auto simp: select_due_def due_def)

lemma queryDueTasks_rows:
  "queryDueTasks currentTime w = (Inr ts, w') \<Longrightarrow> ts = select_due (task_table w) currentTime"
  by (auto simp: queryDueTasks_def emit_def Let_def split: list.splits if_splits)

text \<open>Where the strings are ISO strings of instants in the years 0 to 9999, a list that
  ascends as text ascends in time.\<close>

lemma sorted_instants:
  "\<forall>x \<in> set xs. four_digit_year x \<Longrightarrow> sorted (map toISOString xs) \<Longrightarrow> sorted xs"
proof (induction xs)
  case Nil
  then show ?case by simp
next
  case (Cons x xs)
  have "x \<le> y" if "y \<in> set xs" for y
  proof -
    from Cons.prems that have "four_digit_year x" "four_digit_year y"
      "toISOString x \<le> toISOString y" by auto
    then show ?thesis by (rule toISOString_le_imp_le)
  qed
  with Cons show ?case by simp
qed

lemma dispatch_task_world:
  "attempts cfg now t w = (ex, t', w1) \<Longrightarrow>
   snd (dispatch_task cfg now t w) = snd (insertTaskLog (log_of now ex t') w1)"
  by (cases "try_catch cfg now t w")
     (auto simp: attempts_def dispatch_task_def split: prod.splits sum.splits)

lemma dispatch_task_unfold:
  assumes "retry_config cfg = Some rc" and "attempts cfg now t w = (ex, t', w1)"
  shows "dispatch_task cfg now t w = insertTaskLog (log_of now ex t') w1"
proof -
  from try_catch_result [OF assms(1), of now t w] assms(2)
  have "try_catch cfg now t w = (Inr (), ex, t', w1)"
    by (cases "try_catch cfg now t w") (simp add: attempts_def)
  then show ?thesis
    by (cases "insertTaskLog (log_of now ex t') w1")
       (auto simp: dispatch_task_def split: sum.splits)
qed

lemma dispatch_task_tasks:
  assumes "attempts cfg now t w = (ex, t', w1)" and "dispatch_task cfg now t w = (r, w')"
  shows "task_table w' = task_table w1 \<and>
         filter is_update (trace w') = filter is_update (trace w1)"
proof -
  obtain r1 w2 where i: "insertTaskLog (log_of now ex t') w1 = (r1, w2)"
    by (cases "insertTaskLog (log_of now ex t') w1")
  from dispatch_task_world [OF assms(1)] assms(2) i have "w' = w2" by simp
  with insertTaskLog_tasks [OF i] show ?thesis by simp
qed

lemma dispatch_success:
  assumes "attempts cfg now t w = (ex, t', w1)" and "res_status ex = ''success''"
    and "update_faults w = []" and "dispatch_task cfg now t w = (r, w')"
  shows "t' = advance t now \<and> task_table w' = map (write_row (advance t now)) (task_table w) \<and>
         filter is_update (trace w') = filter is_update (trace w) @ [Update (advance t now)]"
  using attempts_success [OF assms(1,2,3)] dispatch_task_tasks [OF assms(1,4)] by simp

lemma write_row_same_id:
  "r \<in> set (map (write_row t) rows) \<Longrightarrow> task_id r = task_id t \<Longrightarrow>
   \<exists>c. r = (stored_row t)\<lparr>create_time := c\<rparr>"
  by (auto simp: write_row_def)

lemma written_rows:
  assumes "row \<in> set (map (write_row t) rows)" and "task_id row = task_id t"
  shows "status row = status t \<and> execute_time row = execute_time t \<and>
         execute_count row = execute_count t \<and> \<not> is_object (cycle_config row)"
proof -
  from write_row_same_id [OF assms] obtain c where "row = (stored_row t)\<lparr>create_time := c\<rparr>"
    by blast
  then show ?thesis by (simp add: stored_row_fields)
qed

lemma dispatch_task_logs:
  assumes "insert_faults w = []" and "retry_config cfg = Some rc"
    and "dispatch_task cfg now t w = (r, w')"
  shows "r = Inr () \<and> insert_faults w' = [] \<and>
         (\<exists>l. log_table w' = log_table w @ [l] \<and> log_task_id l = task_id t)"
proof -
  obtain ex t' w1 where a: "attempts cfg now t w = (ex, t', w1)"
    by (cases "attempts cfg now t w")
  from attempts_logs [OF a] assms(1)
  have f: "log_table w1 = log_table w" "insert_faults w1 = []" "task_id t' = task_id t"
    by simp_all
  from assms(3) dispatch_task_unfold [OF assms(2) a]
  have "insertTaskLog (log_of now ex t') w1 = (r, w')" by simp
  with insertTaskLog_ok [OF f(2), of "log_of now ex t'"]
  have "r = Inr ()" "w' = w1\<lparr>trace := trace w1 @ [Insert (log_of now ex t')],
                              log_table := log_table w1 @ [log_of now ex t']\<rparr>"
    by simp_all
  with f show ?thesis by (simp add: log_of_def)
qed

text \<open>With a \<open>retry_config\<close> and a log table that takes every insert, the loop is the
  fold of the dispatch over the tasks.\<close>

lemma for_each_task_fold:
  assumes "retry_config cfg = Some rc" and "insert_faults w = []"
  shows "for_each_task cfg now ts w =
           (Inr (), foldl (\<lambda>w t. snd (dispatch_task cfg now t w)) w ts) \<and>
         insert_faults (foldl (\<lambda>w t. snd (dispatch_task cfg now t w)) w ts) = [] \<and>
         map log_task_id (log_table (foldl (\<lambda>w t. snd (dispatch_task cfg now t w)) w ts)) =
           map log_task_id (log_table w) @ map task_id ts"
  using assms(2)
proof (induction ts arbitrary: w)
  case Nil
  then show ?case by simp
next
  case (Cons t ts)
  obtain r1 w1 where d: "dispatch_task cfg now t w = (r1, w1)"
    by (cases "dispatch_task cfg now t w")
  from dispatch_task_logs [OF Cons.prems assms(1) d] obtain l where
    s: "r1 = Inr ()" "insert_faults w1 = []" "log_table w1 = log_table w @ [l]"
       "log_task_id l = task_id t" by blast
  from Cons.IH [OF s(2)] d s show ?case by simp
qed

lemma queryDueTasks_logs:
  "queryDueTasks currentTime w = (r, w') \<Longrightarrow>
   log_table w' = log_table w \<and> insert_faults w' = insert_faults w"
  by (auto simp: queryDueTasks_def emit_def Let_def split: list.splits if_splits)

lemma known_channel_one_sender_call:
  assumes "known_channel t" and "lookup_channel cfg (channel t) = Some cc"
    and "attempts cfg now t w = (ex, t', w')"
  shows "length (filter is_call (trace w')) = length (filter is_call (trace w)) + 1"
proof -
  have calls_fetch: "filter is_call (trace w2) = filter is_call (trace w1)"
    if "fetch url w1 = (r, w2)" for url w1 r w2
    using that by (auto simp: fetch_def emit_def Let_def split: list.splits)
  have calls_update: "filter is_call (trace w2) = filter is_call (trace w1)"
    if "updateTaskAfterSuccess t1 now w1 = (r, t2, w2)" for t1 w1 r t2 w2
    using that
    by (auto simp: updateTaskAfterSuccess_def updateTask_def emit_def Let_def
        split: list.splits if_splits)
  obtain pr w1 where p: "push t cc w = (pr, w1)" by (cases "push t cc w")
  have pc: "length (filter is_call (trace w1)) = length (filter is_call (trace w)) + 1"
  proof (cases "channel t = ''server_chan''")
    case True
    show ?thesis
    proof (cases "pushUrl cc")
      case (Inl e)
      with p True show ?thesis by (auto simp: push_def sendByServerChan_def emit_def Let_def)
    next
      case (Inr url)
      obtain r2 w2 where f: "fetch url (emit (Call_sender ''sendByServerChan'') w) = (r2, w2)"
        by (cases "fetch url (emit (Call_sender ''sendByServerChan'') w)")
      from p True Inr f have "w1 = w2"
        by (auto simp: push_def sendByServerChan_def Let_def split: reply.splits if_splits)
      with calls_fetch [OF f] show ?thesis by (simp add: emit_def)
    qed
  next
    case False
    with assms(1) have ww: "channel t = ''wechat_work''" by (simp add: known_channel_def)
    let ?w = "emit (Call_sender ''sendByWechatWork'') w"
    show ?thesis
    proof (cases "falsy (corp_id cc) \<or> falsy (app_secret cc) \<or> falsy (agent_id cc)")
      case True
      with p ww False show ?thesis
        by (auto simp: push_def sendByWechatWork_def emit_def Let_def)
    next
      case nf: False
      let ?u1 = "''https://qyapi.weixin.qq.com/cgi-bin/gettoken?corpid=''
                      @ interpolate (corp_id cc) @ ''&corpsecret=''
                      @ interpolate (app_secret cc)"
      obtain r2 w2 where f1: "fetch ?u1 ?w = (r2, w2)" by (cases "fetch ?u1 ?w")
      note c1 = calls_fetch [OF f1]
      show ?thesis
      proof (cases r2)
        case NetFail
        with p ww False nf f1 have "w1 = w2"
          by (auto simp: push_def sendByWechatWork_def Let_def)
        with c1 show ?thesis by (simp add: emit_def)
      next
        case (Reply errcode body)
        show ?thesis
        proof (cases "errcode = 0")
          case nz: False
          with p ww False nf f1 Reply have "w1 = w2"
            by (auto simp: push_def sendByWechatWork_def Let_def)
          with c1 show ?thesis by (simp add: emit_def)
        next
          case True
          let ?u2 = "''https://qyapi.weixin.qq.com/cgi-bin/message/send?access_token='' @ body"
          obtain r3 w3 where f2: "fetch ?u2 w2 = (r3, w3)" by (cases "fetch ?u2 w2")
          from p ww False nf f1 Reply True f2 have "w1 = w3"
            by (auto simp: push_def sendByWechatWork_def Let_def split: reply.splits if_splits)
          with c1 calls_fetch [OF f2] show ?thesis by (simp add: emit_def)
        qed
      qed
    qed
  qed
  have rl: "filter is_call (trace w3) = filter is_call (trace w2)"
    if "known_channel t2" "snd (retry_loop cfg now 0 ex0 t2 w2) = (ex3, t3, w3)"
    for ex0 t2 w2 ex3 t3 w3
  proof (cases "retry_config cfg")
    case None
    with that(2) show ?thesis by (auto simp: retry_loop_no_config)
  next
    case (Some rc)
    with that show ?thesis by (auto simp: retry_loop_known)
  qed
  obtain r0 ex0 t0 w0 where fa: "first_attempt cfg now t w = (r0, ex0, t0, w0)"
    by (cases "first_attempt cfg now t w")
  from fa show ?thesis
  proof (cases rule: first_attempt_cases)
    case unknown
    with assms(2) show ?thesis by simp
  next
    case (send_failed cc' e)
    with assms(2) p have w: "w0 = w1" by simp
    from assms(3) fa send_failed have "snd (retry_loop cfg now 0 ex0 t w0) = (ex, t', w')"
      by (simp add: attempts_def try_catch_def)
    from rl [OF assms(1) this] w pc show ?thesis by simp
  next
    case (sent cc' pr' w1')
    with assms(2) p have w: "w1' = w1" by simp
    note cu = calls_update [OF sent(4)]
    show ?thesis
    proof (cases r0)
      case (Inr u)
      with assms(3) fa have "w' = w0" by (simp add: attempts_def try_catch_def)
      with cu w pc show ?thesis by simp
    next
      case (Inl e)
      have k0: "known_channel t0"
        using updateTaskAfterSuccess_logs [OF sent(4)] assms(1) by (simp add: known_channel_def)
      from assms(3) fa Inl have "snd (retry_loop cfg now 0 ex0 t0 w0) = (ex, t', w')"
        by (simp add: attempts_def try_catch_def)
      from rl [OF k0 this] cu w pc show ?thesis by simp
    qed
  qed
qed


text \<open>A successful dispatch of a \<^verbatim>\<open>cycle\<close> task whose \<open>cycle_config\<close> is not a decoded
  object counts the execution and changes neither the status nor the execution time.\<close>

lemma cycle_row_never_advances:
  assumes "type t = ''cycle''" and "\<not> is_object (cycle_config t)"
    and "attempts cfg now t w = (ex, t', w1)" and "res_status ex = ''success''"
    and "update_faults w = []" and "dispatch_task cfg now t w = (r, w')"
  shows "execute_time t' = execute_time t \<and> status t' = status t \<and>
         execute_count t' = execute_count t + 1 \<and>
         task_table w' = map (write_row t') (task_table w)"
  using dispatch_success [OF assms(3,4,5,6)] advance_cycle_undecoded [OF assms(1,2), of now]
    advance_fixed(6) [of t now]
  by simp

subsection \<open>The pattern of the versioned send key\<close>

lemma matches_sctp_Cons: "matches_sctp cs \<Longrightarrow> matches_sctp (c # cs)"
proof -
  assume "matches_sctp cs"
  then obtain pre d post where "cs = pre @ ''sctp'' @ d # post" "is_digit d"
    unfolding matches_sctp_def by blast
  then have "c # cs = (c # pre) @ ''sctp'' @ d # post \<and> is_digit d" by simp
  then show ?thesis unfolding matches_sctp_def by blast
qed

lemma matches_sctp_here:
  "matches_sctp s \<Longrightarrow> \<not> (prefix ''sctp'' s \<and> takeWhile is_digit (drop 4 s) \<noteq> []) \<Longrightarrow>
   matches_sctp (tl s)"
proof -
  assume m: "matches_sctp s" and n: "\<not> (prefix ''sctp'' s \<and> takeWhile is_digit (drop 4 s) \<noteq> [])"
  from m obtain pre d post where s: "s = pre @ ''sctp'' @ d # post" and d: "is_digit d"
    unfolding matches_sctp_def by blast
  show ?thesis
  proof (cases pre)
    case Nil
    with s d have "prefix ''sctp'' s \<and> takeWhile is_digit (drop 4 s) \<noteq> []" by simp
    with n show ?thesis by simp
  next
    case (Cons p pre')
    with s d have "tl s = pre' @ ''sctp'' @ d # post \<and> is_digit d" by simp
    then show ?thesis unfolding matches_sctp_def by blast
  qed
qed

lemma exec_sctp_None_iff: "(exec_sctp s = None) = (\<not> matches_sctp s)"
proof (induction s)
  case Nil
  show ?case by (simp add: matches_sctp_def)
next
  case (Cons c cs)
  show ?case
  proof (cases "prefix ''sctp'' (c # cs) \<and> takeWhile is_digit (drop 4 (c # cs)) \<noteq> []")
    case True
    then obtain rest where r: "c # cs = ''sctp'' @ rest" by (auto simp: prefix_def)
    with True have "takeWhile is_digit rest \<noteq> []" by simp
    then obtain d post where "rest = d # post" "is_digit d"
      by (cases rest) (auto split: if_splits)
    with r have "c # cs = [] @ ''sctp'' @ d # post \<and> is_digit d" by simp
    then have "matches_sctp (c # cs)" unfolding matches_sctp_def by blast
    with True show ?thesis by simp
  next
    case False
    then have e: "exec_sctp (c # cs) = exec_sctp cs" by auto
    have "matches_sctp (c # cs) = matches_sctp cs"
      using matches_sctp_Cons [of cs c] matches_sctp_here [OF _ False] by auto
    with e Cons.IH show ?thesis by simp
  qed
qed

lemma exec_sctp_Some:
  "exec_sctp s = Some n \<Longrightarrow>
   n \<noteq> [] \<and> list_all is_digit n \<and> (\<exists>pre post. s = pre @ ''sctp'' @ n @ post)"
proof (induction s)
  case Nil
  then show ?case by simp
next
  case (Cons c cs)
  show ?case
  proof (cases "prefix ''sctp'' (c # cs) \<and> takeWhile is_digit (drop 4 (c # cs)) \<noteq> []")
    case True
    with Cons.prems have n: "n = takeWhile is_digit (drop 4 (c # cs))" by auto
    from True obtain rest where r: "c # cs = ''sctp'' @ rest" by (auto simp: prefix_def)
    with n have n': "n = takeWhile is_digit rest" by simp
    have "rest = n @ dropWhile is_digit rest" using n' by simp
    with r have "c # cs = [] @ ''sctp'' @ n @ dropWhile is_digit rest" by simp
    then have "\<exists>pre post. c # cs = pre @ ''sctp'' @ n @ post" by blast
    moreover have "list_all is_digit n" unfolding n' list_all_iff
      by (auto dest: set_takeWhileD)
    ultimately show ?thesis using True n by simp
  next
    case False
    with Cons.prems have "exec_sctp cs = Some n" by auto
    from Cons.IH [OF this] obtain pre post where
      "n \<noteq> []" "list_all is_digit n" "cs = pre @ ''sctp'' @ n @ post" by blast
    then have "n \<noteq> [] \<and> list_all is_digit n \<and> c # cs = (c # pre) @ ''sctp'' @ n @ post" by simp
    then show ?thesis by blast
  qed
qed

subsection \<open>The example inputs, run\<close>

lemma world_of_fields:
  "task_table (world_of rows rs) = rows" "log_table (world_of rows rs) = []"
  "replies (world_of rows rs) = rs" "query_faults (world_of rows rs) = []"
  "update_faults (world_of rows rs) = []" "insert_faults (world_of rows rs) = []"
  "trace (world_of rows rs) = []"
  by (simp_all add: world_of_def)

lemma demo_task_fields:
  "task_id demo_task = ''a''" "channel demo_task = ''server_chan''"
  "status demo_task" "execute_time demo_task = ''1970-01-01T00:00:01.000Z''"
  "type demo_task = ''single''" "cycle_config demo_task = Null" "execute_count demo_task = 0"
  by (simp_all add: demo_task_def)

lemma demo_cycle_fields:
  "task_id demo_cycle = ''a''" "channel demo_cycle = ''server_chan''"
  "status demo_cycle" "execute_time demo_cycle = ''1970-01-01T00:00:01.000Z''"
  "type demo_cycle = ''cycle''"
  "cycle_config demo_cycle = Json_text (Object \<lparr>period = Some ''week'', end_time = None\<rparr>)"
  "execute_count demo_cycle = 0"
  by (simp_all add: demo_cycle_def demo_task_def)

lemma demo_ended_fields:
  "task_id demo_ended = ''a''" "channel demo_ended = ''server_chan''"
  "status demo_ended" "execute_time demo_ended = ''1970-01-01T00:00:01.000Z''"
  "type demo_ended = ''cycle''"
  "cycle_config demo_ended = Json_text (Object \<lparr>period = Some ''day'', end_time = Some 1500\<rparr>)"
  "execute_count demo_ended = 0"
  by (simp_all add: demo_ended_def demo_task_def)

lemma demo_email_fields:
  "task_id demo_email = ''a''" "channel demo_email = ''email''"
  "status demo_email" "execute_time demo_email = ''1970-01-01T00:00:01.000Z''"
  "type demo_email = ''single''" "cycle_config demo_email = Null"
  "execute_count demo_email = 0"
  by (simp_all add: demo_email_def demo_task_def)

lemma demo_second_fields:
  "task_id demo_second = ''b''" "channel demo_second = ''server_chan''"
  "status demo_second" "execute_time demo_second = ''1970-01-01T00:00:01.000Z''"
  "type demo_second = ''single''"
  by (simp_all add: demo_second_def demo_task_def)

text \<open>The ISO strings of the instants of the examples, and how they compare as text.\<close>

lemma demo_iso:
  "toISOString 1000 = ''1970-01-01T00:00:01.000Z''"
  "toISOString 1500 = ''1970-01-01T00:00:01.500Z''"
  "toISOString 2000 = ''1970-01-01T00:00:02.000Z''"
  "toISOString 2500 = ''1970-01-01T00:00:02.500Z''"
  "toISOString 3000 = ''1970-01-01T00:00:03.000Z''"
  by code_simp+

lemma demo_years:
  "four_digit_year 1000" "four_digit_year 1500" "four_digit_year 2000"
  "four_digit_year 2500" "four_digit_year 3000"
  by code_simp+

lemma demo_text_order:
  "''1970-01-01T00:00:01.000Z'' \<le> ''1970-01-01T00:00:01.000Z''"
  "''1970-01-01T00:00:01.000Z'' \<le> ''1970-01-01T00:00:01.500Z''"
  "\<not> ''1970-01-01T00:00:01.500Z'' \<le> ''1970-01-01T00:00:01.000Z''"
  "''1970-01-01T00:00:01.000Z'' \<le> ''1970-01-01T00:00:02.000Z''"
  "''1970-01-01T00:00:01.500Z'' \<le> ''1970-01-01T00:00:02.000Z''"
  "\<not> ''1970-01-01T00:00:02.500Z'' \<le> ''1970-01-01T00:00:02.000Z''"
  "''1970-01-01T00:00:01.000Z'' \<le> ''1970-01-01T00:00:03.000Z''"
  "''+010000-01-01T00:00:00.000Z'' \<le> ''1970-01-01T00:00:02.000Z''"
  by code_simp+

lemma demo_retry_config:
  "retry_config demo_config = Some \<lparr>max_retry = 2, retry_interval = 10\<rparr>"
  by (simp add: demo_config_def)

lemma demo_lookup:
  "lookup_channel demo_config c = (if c = ''server_chan'' then Some demo_channel else None)"
  by (simp add: lookup_channel_def demo_config_def)

lemma demo_pushUrl: "pushUrl demo_channel = Inr ''https://sctapi.ftqq.com/SCT1.send''"
  by (simp add: pushUrl_def falsy_def demo_channel_def interpolate_def)

text \<open>A task on the server-push channel whose provider gives no usable answer: one
  sender call, two delays, no update, one log row.\<close>

lemma demo_first_attempt_fail:
  assumes "channel t = ''server_chan''" and "replies w = []"
    and "lookup_channel cfg ''server_chan'' = Some demo_channel"
  shows "first_attempt cfg now t w =
     (Inl TransportError, initial_result, t,
      w\<lparr>trace := trace w @ [Call_sender ''sendByServerChan'',
                             Fetch ''https://sctapi.ftqq.com/SCT1.send'']\<rparr>)"
  using assms
  by (simp add: first_attempt_def push_def sendByServerChan_def demo_pushUrl
      fetch_def emit_def Let_def)

lemma demo_try_catch_fail:
  assumes "channel t = ''server_chan''" and "replies w = []"
  shows "try_catch demo_config now t w =
     (Inr (), \<lparr>res_status = ''fail'',
       res_message = Msg_retry_failed 2 (ReferenceError ''channelConfig'')\<rparr>,
      t,
      w\<lparr>trace := trace w @ [Call_sender ''sendByServerChan'',
                             Fetch ''https://sctapi.ftqq.com/SCT1.send'', Sleep 10, Sleep 10]\<rparr>)"
proof -
  have k: "known_channel t" using assms(1) by (simp add: known_channel_def)
  have l: "lookup_channel demo_config ''server_chan'' = Some demo_channel"
    by (simp add: demo_lookup)
  show ?thesis
    by (simp add: try_catch_def demo_first_attempt_fail [OF assms l]
        retry_loop_known [OF k demo_retry_config] initial_result_def numeral_2_eq_2)
qed

lemma demo_attempts_fail:
  assumes "channel t = ''server_chan''" and "replies w = []"
  shows "attempts demo_config now t w =
     (\<lparr>res_status = ''fail'',
       res_message = Msg_retry_failed 2 (ReferenceError ''channelConfig'')\<rparr>,
      t,
      w\<lparr>trace := trace w @ [Call_sender ''sendByServerChan'',
                             Fetch ''https://sctapi.ftqq.com/SCT1.send'', Sleep 10, Sleep 10]\<rparr>)"
  by (simp add: attempts_def demo_try_catch_fail [OF assms])

lemma demo_dispatch_fail:
  assumes "channel t = ''server_chan''" and "replies w = []" and "insert_faults w = []"
  shows "dispatch_task demo_config now t w =
     (Inr (),
      w\<lparr>trace := trace w @
          [Call_sender ''sendByServerChan'', Fetch ''https://sctapi.ftqq.com/SCT1.send'',
           Sleep 10, Sleep 10,
           Insert \<lparr>log_task_id = task_id t, log_channel = ''server_chan'',
                   log_execute_time = toISOString now, log_status = ''fail'',
                   log_message = Msg_retry_failed 2 (ReferenceError ''channelConfig'')\<rparr>],
        log_table := log_table w @
          [\<lparr>log_task_id = task_id t, log_channel = ''server_chan'',
            log_execute_time = toISOString now, log_status = ''fail'',
            log_message = Msg_retry_failed 2 (ReferenceError ''channelConfig'')\<rparr>]\<rparr>)"
  by (simp add: dispatch_task_def demo_try_catch_fail [OF assms(1,2)] insertTaskLog_def emit_def
      log_of_def assms)

text \<open>The same task when the provider accepts the push.\<close>

lemma demo_try_catch_ok:
  assumes "channel t = ''server_chan''" and "replies w = [Reply 0 ''ok'']"
    and "update_faults w = []"
  shows "try_catch demo_config now t w =
     (Inr (), \<lparr>res_status = ''success'', res_message = Msg_push_ok (Some (Reply 0 ''ok''))\<rparr>,
      advance t now,
      w\<lparr>replies := [],
        trace := trace w @
          [Call_sender ''sendByServerChan'', Fetch ''https://sctapi.ftqq.com/SCT1.send'',
           Update (advance t now)],
        task_table := map (write_row (advance t now)) (task_table w)\<rparr>)"
proof -
  have "push t demo_channel w =
     (Inr (Some (Reply 0 ''ok'')),
      w\<lparr>replies := [],
        trace := trace w @
          [Call_sender ''sendByServerChan'', Fetch ''https://sctapi.ftqq.com/SCT1.send'']\<rparr>)"
    using assms
    by (simp add: push_def sendByServerChan_def demo_pushUrl fetch_def emit_def Let_def)
  then show ?thesis
    using assms
    by (simp add: try_catch_def first_attempt_def demo_lookup updateTaskAfterSuccess_ok Let_def)
qed

lemma demo_attempts_ok:
  assumes "channel t = ''server_chan''" and "replies w = [Reply 0 ''ok'']"
    and "update_faults w = []"
  shows "attempts demo_config now t w =
     (\<lparr>res_status = ''success'', res_message = Msg_push_ok (Some (Reply 0 ''ok''))\<rparr>,
      advance t now,
      w\<lparr>replies := [],
        trace := trace w @
          [Call_sender ''sendByServerChan'', Fetch ''https://sctapi.ftqq.com/SCT1.send'',
           Update (advance t now)],
        task_table := map (write_row (advance t now)) (task_table w)\<rparr>)"
  by (simp add: attempts_def demo_try_catch_ok [OF assms])

lemma demo_dispatch_ok:
  assumes "channel t = ''server_chan''" and "replies w = [Reply 0 ''ok'']"
    and "update_faults w = []" and "insert_faults w = []"
  shows "dispatch_task demo_config now t w =
     (Inr (),
      w\<lparr>replies := [],
        trace := trace w @
          [Call_sender ''sendByServerChan'', Fetch ''https://sctapi.ftqq.com/SCT1.send'',
           Update (advance t now),
           Insert \<lparr>log_task_id = task_id t, log_channel = ''server_chan'',
                   log_execute_time = toISOString now, log_status = ''success'',
                   log_message = Msg_push_ok (Some (Reply 0 ''ok''))\<rparr>],
        task_table := map (write_row (advance t now)) (task_table w),
        log_table := log_table w @
          [\<lparr>log_task_id = task_id t, log_channel = ''server_chan'',
            log_execute_time = toISOString now, log_status = ''success'',
            log_message = Msg_push_ok (Some (Reply 0 ''ok''))\<rparr>]\<rparr>)"
  by (simp add: dispatch_task_def demo_try_catch_ok [OF assms(1,2,3)] insertTaskLog_def emit_def
      log_of_def assms advance_fixed(1) advance_fixed(2) [symmetric])

text \<open>The same task and the silent provider, under the configuration without
  \<open>retry_config\<close>: the loop test raises, the log row is written with the empty message,
  and the error leaves the dispatch.\<close>

lemma demo_dispatch_no_retry_config:
  assumes "channel t = ''server_chan''" and "replies w = []" and "insert_faults w = []"
  shows "dispatch_task demo_config_no_retry now t w =
     (Inl (TypeError ''max_retry''),
      w\<lparr>trace := trace w @
          [Call_sender ''sendByServerChan'', Fetch ''https://sctapi.ftqq.com/SCT1.send'',
           Insert \<lparr>log_task_id = task_id t, log_channel = ''server_chan'',
                   log_execute_time = toISOString now, log_status = ''fail'',
                   log_message = Msg_empty\<rparr>],
        log_table := log_table w @
          [\<lparr>log_task_id = task_id t, log_channel = ''server_chan'',
            log_execute_time = toISOString now, log_status = ''fail'',
            log_message = Msg_empty\<rparr>]\<rparr>)"
proof -
  have l: "lookup_channel demo_config_no_retry ''server_chan'' = Some demo_channel"
    by (simp add: lookup_channel_def demo_config_no_retry_def)
  have c: "retry_config demo_config_no_retry = None" by (simp add: demo_config_no_retry_def)
  show ?thesis
    by (simp add: dispatch_task_def try_catch_def demo_first_attempt_fail [OF assms(1,2) l]
        retry_loop_no_config [OF c] insertTaskLog_def emit_def log_of_def assms
        initial_result_def)
qed

lemma jan_31_plus_one_month:
  "setMonth 1706659200000 (getMonth 1706659200000 + 1) = 1709337600000"
  "toISOString 1709337600000 = ''2024-03-02T00:00:00.000Z''"
  by code_simp+

lemma demo_email_lookup: "lookup_channel demo_config_email ''email'' = Some demo_channel"
  by (simp add: lookup_channel_def demo_config_email_def)

lemma demo_email_dispatch:
  "dispatch_task demo_config 2000 demo_email (world_of [demo_email] []) =
     (Inr (),
      (world_of [demo_email] [])
        \<lparr>trace :=
           [Sleep 10, Update (advance demo_email 2000),
            Insert \<lparr>log_task_id = ''a'', log_channel = ''email'',
                    log_execute_time = ''1970-01-01T00:00:02.000Z'',
                    log_status = ''success'', log_message = Msg_retry_ok 1\<rparr>],
         task_table := [stored_row (advance demo_email 2000)],
         log_table :=
           [\<lparr>log_task_id = ''a'', log_channel = ''email'',
             log_execute_time = ''1970-01-01T00:00:02.000Z'',
             log_status = ''success'', log_message = Msg_retry_ok 1\<rparr>]\<rparr>)"
proof -
  have k: "\<not> known_channel demo_email" by (simp add: known_channel_def demo_email_fields)
  have m: "0 < max_retry \<lparr>max_retry = 2, retry_interval = 10\<rparr>" by simp
  have fa: "first_attempt demo_config 2000 demo_email (world_of [demo_email] []) =
     (Inl (UnknownChannel ''email''), initial_result, demo_email, world_of [demo_email] [])"
    by (simp add: first_attempt_def demo_lookup demo_email_fields)
  have cr: "create_time (advance demo_email 2000) = create_time demo_email"
    by (rule advance_fixed(5))
  have st: "(stored_row (advance demo_email 2000))\<lparr>create_time := create_time demo_email\<rparr>
            = stored_row (advance demo_email 2000)"
    using cr by (simp add: stored_row_def)
  have "try_catch demo_config 2000 demo_email (world_of [demo_email] []) =
     (Inr (), \<lparr>res_status = ''success'', res_message = Msg_retry_ok 1\<rparr>,
      advance demo_email 2000,
      (world_of [demo_email] [])
        \<lparr>trace := [Sleep 10, Update (advance demo_email 2000)],
         task_table := [stored_row (advance demo_email 2000)]\<rparr>)"
    by (simp add: try_catch_def fa
        retry_loop_other [OF k demo_retry_config m world_of_fields(5)]
        world_of_fields write_row_def advance_fixed(1) st)
  then show ?thesis
    by (simp add: dispatch_task_def insertTaskLog_def emit_def log_of_def world_of_fields
        advance_fixed(1) advance_fixed(2) [symmetric] demo_email_fields demo_iso)
qed

lemma res_status_literals:
  "res_status \<lparr>res_status = s, res_message = m\<rparr> = s"
  by simp

section \<open>The claims\<close>

subsection \<open>Due-task selection\<close>

text \<open>
  Claim C8. For every instant \<open>now\<close>, every task in the list that \<open>queryDueTasks\<close>
  returns has \<open>status\<close> true and \<open>execute_time\<close> not after \<open>now\<close>, and the list is in
  ascending order of \<open>execute_time\<close>.

  The query compares the stored text of \<open>execute_time\<close> with the ISO string of the tick.
  A row whose \<open>execute_time\<close> is the ISO string of the first instant of the year 10000
  begins with a plus sign, which sorts before every digit: the query of a tick in 1970
  returns it.
\<close>

theorem C8_expanded_year_row_is_returned_early:
  "toISOString 253402300800000 = ''+010000-01-01T00:00:00.000Z''
   \<and> (2000::int) < 253402300800000
   \<and> fst (queryDueTasks (toISOString 2000)
            (world_of [demo_task\<lparr>execute_time := ''+010000-01-01T00:00:00.000Z''\<rparr>] []))
       = Inr [demo_task\<lparr>execute_time := ''+010000-01-01T00:00:00.000Z''\<rparr>]"
proof -
  have "toISOString 253402300800000 = ''+010000-01-01T00:00:00.000Z''" by code_simp
  then show ?thesis
    by (simp add: queryDueTasks_def select_due_def due_def emit_def world_of_def demo_task_def
        demo_iso demo_text_order)
qed

text \<open>
  Claim C8, amended. Every task in the list that \<open>queryDueTasks\<close> returns has \<open>status\<close>
  true and an \<open>execute_time\<close> that is not after the ISO string of the tick in the order of
  text, and the list ascends in that order. Where every \<open>execute_time\<close> of the table is
  the ISO string of an instant in the years 0 to 9999 (\<open>instant\<close> gives the instant of a
  row) and the tick is in those years, the instants of the returned tasks are not after
  the tick and ascend along the list.
\<close>

theorem C8_queryDue_sound_for_iso_strings:
  assumes "queryDueTasks (toISOString now) w = (Inr ts, w')"
  shows "(\<forall>t \<in> set ts. status t \<and> execute_time t \<le> toISOString now) \<and>
         sorted (map execute_time ts) \<and>
         (four_digit_year now \<and>
          (\<forall>r \<in> set (task_table w).
             four_digit_year (instant r) \<and> execute_time r = toISOString (instant r))
          \<longrightarrow> (\<forall>t \<in> set ts. instant t \<le> now) \<and> sorted (map instant ts))"
proof -
  from queryDueTasks_rows [OF assms]
  have ts: "ts = select_due (task_table w) (toISOString now)" .
  note s = select_due_sound [of "task_table w" "toISOString now"]
  have "(\<forall>t \<in> set ts. instant t \<le> now) \<and> sorted (map instant ts)"
    if y: "four_digit_year now"
      and c: "\<forall>r \<in> set (task_table w).
                four_digit_year (instant r) \<and> execute_time r = toISOString (instant r)"
  proof -
    have r: "four_digit_year (instant t) \<and> execute_time t = toISOString (instant t)"
      if "t \<in> set ts" for t
      using that c ts select_due_rows [of "task_table w" "toISOString now"] by auto
    have a: "instant t \<le> now" if "t \<in> set ts" for t
    proof -
      from s ts that r [OF that] have "toISOString (instant t) \<le> toISOString now" by auto
      with r [OF that] y show ?thesis by (auto intro: toISOString_le_imp_le)
    qed
    have e: "map execute_time ts = map toISOString (map instant ts)"
      using r by simp
    from s ts have "sorted (map execute_time ts)" by simp
    then have "sorted (map toISOString (map instant ts))" unfolding e .
    moreover have "\<forall>x \<in> set (map instant ts). four_digit_year x" using r by auto
    ultimately have "sorted (map instant ts)" by (rule sorted_instants [rotated])
    with a show ?thesis by simp
  qed
  with s ts show ?thesis by simp
qed

theorem C8_queryDue_sound_for_iso_strings_witness:
  "fst (queryDueTasks (toISOString 2000)
          (world_of
             [demo_task\<lparr>task_id := ''late'', execute_time := ''1970-01-01T00:00:01.500Z''\<rparr>,
              demo_task\<lparr>task_id := ''off'', status := False\<rparr>,
              demo_task\<lparr>task_id := ''future'', execute_time := ''1970-01-01T00:00:02.500Z''\<rparr>,
              demo_task] []))
     = Inr [demo_task,
            demo_task\<lparr>task_id := ''late'', execute_time := ''1970-01-01T00:00:01.500Z''\<rparr>]
   \<and> status demo_task \<and> execute_time demo_task \<le> toISOString 2000
   \<and> four_digit_year 2000
   \<and> execute_time demo_task = toISOString 1000
   \<and> sorted [1000, 1500 :: int]"
proof -
  let ?late = "demo_task\<lparr>task_id := ''late'', execute_time := ''1970-01-01T00:00:01.500Z''\<rparr>"
  let ?w = "world_of
             [?late,
              demo_task\<lparr>task_id := ''off'', status := False\<rparr>,
              demo_task\<lparr>task_id := ''future'', execute_time := ''1970-01-01T00:00:02.500Z''\<rparr>,
              demo_task] []"
  let ?i = "\<lambda>r. if task_id r = ''late'' then 1500
                 else if task_id r = ''future'' then 2500 else (1000 :: int)"
  have q: "queryDueTasks (toISOString 2000) ?w
           = (Inr [demo_task, ?late], emit (Query (toISOString 2000)) ?w)"
    by (simp add: queryDueTasks_def select_due_def due_def emit_def world_of_def demo_task_def
        demo_iso demo_text_order)
  have c: "\<forall>r \<in> set (task_table ?w).
             four_digit_year (?i r) \<and> execute_time r = toISOString (?i r)"
    by (simp add: world_of_fields demo_task_fields demo_iso demo_years)
  from C8_queryDue_sound_for_iso_strings [OF q, of ?i] c demo_years(3) q
  show ?thesis by (simp add: demo_task_fields demo_iso)
qed

subsection \<open>Attempts, retries and the log row\<close>

text \<open>
  Claim C1. For a due task, with \<open>max_retry = N\<close> and every attempt failing, the
  dispatch makes \<open>1 + N\<close> send attempts and appends one log row with status
  \<^verbatim>\<open>fail\<close>.

  The handler does not send again. With \<open>N = 2\<close> and a provider that never answers, the
  dispatch of the example task calls the sender once and fetches once; the two retries
  only wait (the two \<open>Sleep\<close> events) and raise the ReferenceError of \<open>retry_attempt\<close>
  before a sender is entered. The single log row with status \<^verbatim>\<open>fail\<close> is there, and its
  message carries the ReferenceError, not the provider's error. For every task on one of
  the two sender channels and every \<open>N\<close>, \<open>known_channel_one_sender_call\<close> gives the
  same count.
\<close>

theorem C1_retries_never_call_the_sender:
  "retry_config demo_config = Some \<lparr>max_retry = 2, retry_interval = 10\<rparr>
   \<and> dispatch_task demo_config 2000 demo_task (world_of [demo_task] []) =
     (Inr (),
      (world_of [demo_task] [])
        \<lparr>trace :=
           [Call_sender ''sendByServerChan'', Fetch ''https://sctapi.ftqq.com/SCT1.send'',
            Sleep 10, Sleep 10,
            Insert \<lparr>log_task_id = ''a'', log_channel = ''server_chan'',
                    log_execute_time = ''1970-01-01T00:00:02.000Z'', log_status = ''fail'',
                    log_message = Msg_retry_failed 2 (ReferenceError ''channelConfig'')\<rparr>],
         log_table :=
           [\<lparr>log_task_id = ''a'', log_channel = ''server_chan'',
             log_execute_time = ''1970-01-01T00:00:02.000Z'', log_status = ''fail'',
             log_message = Msg_retry_failed 2 (ReferenceError ''channelConfig'')\<rparr>]\<rparr>)
   \<and> length (filter is_call
         (trace (snd (dispatch_task demo_config 2000 demo_task (world_of [demo_task] []))))) = 1"
proof -
  note d = demo_dispatch_fail [OF demo_task_fields(2) world_of_fields(3) world_of_fields(6),
      of 2000 "[demo_task]"]
  show ?thesis by (simp add: d demo_retry_config world_of_fields demo_task_fields demo_iso)
qed

text \<open>
  Claim C3. For a due task, if the first attempt and all retries fail, the dispatch
  changes no field of the task, issues no update to the repository, and the task is
  returned again by the due query of a later tick.

  The attempts end with status \<^verbatim>\<open>fail\<close> exactly when the first attempt raises before
  its success result is assigned and no retry reaches its own
  (\<open>attempts_fail_iff\<close>); so the hypothesis is stated on the result of the attempts.
  The conclusion holds whether or not the log insert that follows rejects. The two ticks
  are instants in the years 0 to 9999, where the ISO strings that the due query compares
  ascend with the instants (\<open>toISOString_mono\<close>).
\<close>

theorem C3_failed_dispatch_changes_nothing:
  assumes "attempts cfg now t w = (ex, t', w1)" and "res_status ex = ''fail''"
    and "dispatch_task cfg now t w = (r, w')"
    and "t \<in> set (select_due (task_table w) (toISOString now))" and "now \<le> now'"
    and "four_digit_year now" and "four_digit_year now'"
  shows "t' = t \<and> task_table w' = task_table w \<and>
         filter is_update (trace w') = filter is_update (trace w) \<and>
         t \<in> set (select_due (task_table w') (toISOString now'))"
proof -
  from attempts_fail [OF assms(1,2)] dispatch_task_tasks [OF assms(1,3)]
  have f: "t' = t \<and> task_table w' = task_table w \<and>
           filter is_update (trace w') = filter is_update (trace w)" by simp
  moreover have "t \<in> set (select_due (task_table w) (toISOString now'))"
    using assms(4) toISOString_mono [OF assms(6,7,5)] by (rule select_due_later)
  ultimately show ?thesis by simp
qed

theorem C3_failed_dispatch_changes_nothing_witness:
  "res_status (fst (attempts demo_config 2000 demo_task (world_of [demo_task] []))) = ''fail''
   \<and> task_table (snd (dispatch_task demo_config 2000 demo_task (world_of [demo_task] [])))
       = [demo_task]
   \<and> filter is_update
        (trace (snd (dispatch_task demo_config 2000 demo_task (world_of [demo_task] [])))) = []
   \<and> demo_task \<in> set (select_due
        (task_table (snd (dispatch_task demo_config 2000 demo_task (world_of [demo_task] []))))
        (toISOString 3000))"
proof -
  let ?w = "world_of [demo_task] []"
  note a = demo_attempts_fail [OF demo_task_fields(2) world_of_fields(3), of 2000 "[demo_task]"]
  note d = demo_dispatch_fail [OF demo_task_fields(2) world_of_fields(3) world_of_fields(6),
      of 2000 "[demo_task]"]
  have du: "demo_task \<in> set (select_due (task_table ?w) (toISOString 2000))"
    by (simp add: select_due_def due_def world_of_fields demo_task_fields demo_iso
        demo_text_order)
  have l: "(2000::int) \<le> 3000" by simp
  from C3_failed_dispatch_changes_nothing
         [OF a res_status_literals d du l demo_years(3) demo_years(5)]
  show ?thesis by (simp add: a d world_of_fields)
qed

subsection \<open>Recurrence after a successful dispatch\<close>

text \<open>
  Claim C5. For a \<^verbatim>\<open>single\<close> task, after one successful dispatch its status is false
  and its \<open>execute_time\<close> is the one it had before: in the task object and in every
  row of the table with its id. The update is taken to run (no rejected update).
\<close>

theorem C5_single_task_after_success:
  assumes "type t = ''single''"
    and "attempts cfg now t w = (ex, t', w1)" and "res_status ex = ''success''"
    and "update_faults w = []" and "dispatch_task cfg now t w = (r, w')"
  shows "\<not> status t' \<and> execute_time t' = execute_time t \<and>
         task_table w' = map (write_row t') (task_table w) \<and>
         (\<forall>row \<in> set (task_table w'). task_id row = task_id t \<longrightarrow>
            \<not> status row \<and> execute_time row = execute_time t)"
proof -
  from dispatch_success [OF assms(2,3,4,5)]
  have e: "t' = advance t now" and tb: "task_table w' = map (write_row (advance t now)) (task_table w)"
    by simp_all
  from advance_single [OF assms(1), of now] e
  have s: "\<not> status t' \<and> execute_time t' = execute_time t" by simp
  have "\<not> status row \<and> execute_time row = execute_time t"
    if "row \<in> set (task_table w')" "task_id row = task_id t" for row
  proof -
    from that tb e have "row \<in> set (map (write_row t') (task_table w))" "task_id row = task_id t'"
      by (simp_all add: advance_fixed(1))
    from written_rows [OF this] s show ?thesis by simp
  qed
  with s tb e show ?thesis by simp
qed

theorem C5_single_task_after_success_witness:
  "type demo_task = ''single''
   \<and> res_status (fst (attempts demo_config 2000 demo_task
                        (world_of [demo_task] [Reply 0 ''ok'']))) = ''success''
   \<and> map status (task_table (snd (dispatch_task demo_config 2000 demo_task
                        (world_of [demo_task] [Reply 0 ''ok''])))) = [False]
   \<and> map execute_time (task_table (snd (dispatch_task demo_config 2000 demo_task
                        (world_of [demo_task] [Reply 0 ''ok''])))) = [execute_time demo_task]"
proof -
  note a = demo_attempts_ok [OF demo_task_fields(2) world_of_fields(3) world_of_fields(5),
      of 2000 "[demo_task]"]
  note d = demo_dispatch_ok [OF demo_task_fields(2) world_of_fields(3) world_of_fields(5)
      world_of_fields(6), of 2000 "[demo_task]"]
  from C5_single_task_after_success
         [OF demo_task_fields(5) a res_status_literals world_of_fields(5) d]
  show ?thesis
    by (simp add: a d world_of_fields demo_task_fields write_row_def advance_fixed(1)
        stored_row_fields)
qed

text \<open>
  Claim C4. For a \<^verbatim>\<open>cycle\<close> task with no end time, or an end time after the tick's
  instant \<open>T\<close>, a successful dispatch at \<open>T\<close> sets \<open>execute_time\<close> to \<open>T\<close> plus one
  period by calendar arithmetic (one day, seven days, one calendar month); the execution
  count grows by one and the status stays true.

  \<open>updateTaskAfterSuccess\<close> has this arithmetic (\<open>advance_cycle_next\<close>), but it reads the
  period from \<^verbatim>\<open>task.cycle_config?.period\<close>, and the task it is given is a row of the
  table, whose \<open>cycle_config\<close> is the JSON text that \<open>insertTask\<close> wrote: the period it
  reads is undefined. The weekly example task, due at \<open>T\<close> one second after the epoch and
  dispatched successfully at \<open>T\<close>, keeps its \<open>execute_time\<close>, where the claim has
  \<open>T\<close> plus seven days; the count and the status are as the claim says, and the
  \<open>cycle_config\<close> is written back encoded once more. \<open>cycle_row_never_advances\<close> has the
  same for every row.
\<close>

theorem C4_weekly_task_is_not_advanced:
  "type demo_cycle = ''cycle''
   \<and> cycle_config demo_cycle = Json_text (Object \<lparr>period = Some ''week'', end_time = None\<rparr>)
   \<and> execute_time demo_cycle = toISOString 1000
   \<and> toISOString 1000 = ''1970-01-01T00:00:01.000Z''
   \<and> toISOString (setDate 1000 (getDate 1000 + 7)) = ''1970-01-08T00:00:01.000Z''
   \<and> res_status (fst (attempts demo_config 1000 demo_cycle
                        (world_of [demo_cycle] [Reply 0 ''ok'']))) = ''success''
   \<and> map execute_time (task_table (snd (dispatch_task demo_config 1000 demo_cycle
                        (world_of [demo_cycle] [Reply 0 ''ok''])))) = [''1970-01-01T00:00:01.000Z'']
   \<and> map execute_count (task_table (snd (dispatch_task demo_config 1000 demo_cycle
                        (world_of [demo_cycle] [Reply 0 ''ok''])))) = [1]
   \<and> map status (task_table (snd (dispatch_task demo_config 1000 demo_cycle
                        (world_of [demo_cycle] [Reply 0 ''ok''])))) = [True]
   \<and> map cycle_config (task_table (snd (dispatch_task demo_config 1000 demo_cycle
                        (world_of [demo_cycle] [Reply 0 ''ok''])))) =
        [Json_text (Json_text (Object \<lparr>period = Some ''week'', end_time = None\<rparr>))]"
proof -
  note a = demo_attempts_ok [OF demo_cycle_fields(2) world_of_fields(3) world_of_fields(5),
      of 1000 "[demo_cycle]"]
  note d = demo_dispatch_ok [OF demo_cycle_fields(2) world_of_fields(3) world_of_fields(5)
      world_of_fields(6), of 1000 "[demo_cycle]"]
  have u: "\<not> is_object (cycle_config demo_cycle)" by (simp add: demo_cycle_fields)
  note n = advance_cycle_undecoded [OF demo_cycle_fields(5) u, of 1000]
  have w: "toISOString (setDate 1000 (getDate 1000 + 7)) = ''1970-01-08T00:00:01.000Z''"
    by code_simp
  have c: "cycle_config (stored_row (advance demo_cycle 1000)) =
           Json_text (Json_text (Object \<lparr>period = Some ''week'', end_time = None\<rparr>))"
    by (simp add: stored_row_def stringify_def advance_fixed(4) demo_cycle_fields)
  show ?thesis
    by (simp add: a d w c n world_of_fields demo_cycle_fields write_row_def advance_fixed(1)
        advance_fixed(6) stored_row_fields demo_iso)
qed

text \<open>
  Claim C2. For a \<^verbatim>\<open>cycle\<close> task whose end time exists and is not after the tick's
  instant, the status is false after the dispatch, whether the send succeeded or every
  attempt failed.

  The second half does not hold: the handler changes a task only through
  \<open>updateTaskAfterSuccess\<close>, which it calls after a send that succeeded. The daily
  example task, whose end has passed, is dispatched while the provider does not answer:
  every attempt fails and the row is still in the table with status true.
\<close>

theorem C2_status_kept_when_all_attempts_fail:
  "type demo_ended = ''cycle''
   \<and> configured (cycle_config demo_ended) = Some \<lparr>period = Some ''day'', end_time = Some 1500\<rparr>
   \<and> (1500::int) \<le> 2000
   \<and> select_due [demo_ended] (toISOString 2000) = [demo_ended]
   \<and> res_status (fst (attempts demo_config 2000 demo_ended (world_of [demo_ended] []))) = ''fail''
   \<and> map status (task_table (snd (dispatch_task demo_config 2000 demo_ended
                                     (world_of [demo_ended] [])))) = [True]"
proof -
  note a = demo_attempts_fail [OF demo_ended_fields(2) world_of_fields(3), of 2000 "[demo_ended]"]
  note d = demo_dispatch_fail [OF demo_ended_fields(2) world_of_fields(3) world_of_fields(6),
      of 2000 "[demo_ended]"]
  show ?thesis
    by (simp add: a d world_of_fields demo_ended_fields select_due_def due_def demo_iso
        demo_text_order)
qed

text \<open>
  Claim C2, amended. For a \<^verbatim>\<open>cycle\<close> task whose end time exists and is not after the
  tick's instant, a dispatch in which every attempt fails leaves the status, and with it
  the whole task and the table, as they were. (What a successful dispatch does to such a
  task is not part of the amended claim: the end time is read like the period of claim
  C4.)
\<close>

theorem C2_failed_dispatch_keeps_the_status:
  assumes "type t = ''cycle''" and "configured (cycle_config t) = Some c"
    and "end_time c = Some e" and "e \<le> now"
    and "attempts cfg now t w = (ex, t', w1)" and "res_status ex = ''fail''"
    and "dispatch_task cfg now t w = (r, w')"
  shows "status t' = status t \<and> t' = t \<and> task_table w' = task_table w"
  using attempts_fail [OF assms(5,6)] dispatch_task_tasks [OF assms(5,7)] by simp

theorem C2_failed_dispatch_keeps_the_status_witness:
  "type demo_ended = ''cycle''
   \<and> configured (cycle_config demo_ended) = Some \<lparr>period = Some ''day'', end_time = Some 1500\<rparr>
   \<and> res_status (fst (attempts demo_config 2000 demo_ended
                        (world_of [demo_ended, demo_second] []))) = ''fail''
   \<and> task_table (snd (dispatch_task demo_config 2000 demo_ended
                        (world_of [demo_ended, demo_second] []))) = [demo_ended, demo_second]"
proof -
  note a = demo_attempts_fail [OF demo_ended_fields(2) world_of_fields(3),
      of 2000 "[demo_ended, demo_second]"]
  note d = demo_dispatch_fail [OF demo_ended_fields(2) world_of_fields(3) world_of_fields(6),
      of 2000 "[demo_ended, demo_second]"]
  have c: "configured (cycle_config demo_ended)
           = Some \<lparr>period = Some ''day'', end_time = Some 1500\<rparr>"
    by (simp add: demo_ended_fields)
  have e: "end_time \<lparr>period = Some ''day'', end_time = Some 1500\<rparr> = Some 1500" by simp
  have l: "(1500::int) \<le> 2000" by simp
  from C2_failed_dispatch_keeps_the_status
         [OF demo_ended_fields(5) c e l a res_status_literals d] c
  show ?thesis by (simp add: a d world_of_fields demo_ended_fields)
qed

subsection \<open>Channels without an entry, channels without a sender\<close>

text \<open>
  Claim C6. For a due task whose channel has no entry in
  \<^verbatim>\<open>config.notification_channels\<close>, the dispatch is an immediate failure that consumes no
  retry and goes straight to the single log row with status \<^verbatim>\<open>fail\<close>.

  The handler raises the unknown-channel error inside the \<^verbatim>\<open>try\<close> block, so the
  \<^verbatim>\<open>catch\<close> block runs the retry loop as for any other error. For the example task on
  the unlisted channel \<^verbatim>\<open>email\<close>, with two retries configured, the first retry waits,
  calls no sender, records success and deactivates the task.
\<close>

theorem C6_unknown_channel_enters_the_retry_loop:
  "lookup_channel demo_config (channel demo_email) = None
   \<and> filter is_sleep (trace (snd (dispatch_task demo_config 2000 demo_email
                                     (world_of [demo_email] [])))) = [Sleep 10]
   \<and> filter is_call (trace (snd (dispatch_task demo_config 2000 demo_email
                                     (world_of [demo_email] [])))) = []
   \<and> log_table (snd (dispatch_task demo_config 2000 demo_email (world_of [demo_email] []))) =
        [\<lparr>log_task_id = ''a'', log_channel = ''email'',
          log_execute_time = ''1970-01-01T00:00:02.000Z'',
          log_status = ''success'', log_message = Msg_retry_ok 1\<rparr>]
   \<and> map status (task_table (snd (dispatch_task demo_config 2000 demo_email
                                     (world_of [demo_email] [])))) = [False]"
  by (simp add: demo_email_dispatch demo_lookup demo_email_fields advance_single
      stored_row_fields)

text \<open>
  Claim C10. For a due task whose channel has an entry in
  \<^verbatim>\<open>config.notification_channels\<close> but is neither \<^verbatim>\<open>server_chan\<close> nor
  \<^verbatim>\<open>wechat_work\<close>, the dispatch sends nothing, records a log row with status
  \<^verbatim>\<open>success\<close> whose message carries an undefined provider response, and advances the
  task through \<open>updateTaskAfterSuccess\<close>. The database is taken to run both statements;
  the events of the dispatch are exactly the update and the log insert.
\<close>

theorem C10_entry_without_sender_is_logged_as_success:
  assumes "lookup_channel cfg (channel t) = Some cc" and "\<not> known_channel t"
    and "update_faults w = []" and "insert_faults w = []"
  shows "dispatch_task cfg now t w =
     (Inr (),
      w\<lparr>trace := trace w @
          [Update (advance t now),
           Insert \<lparr>log_task_id = task_id t, log_channel = channel t,
                   log_execute_time = toISOString now,
                   log_status = ''success'', log_message = Msg_push_ok None\<rparr>],
        task_table := map (write_row (advance t now)) (task_table w),
        log_table := log_table w @
          [\<lparr>log_task_id = task_id t, log_channel = channel t,
            log_execute_time = toISOString now,
            log_status = ''success'', log_message = Msg_push_ok None\<rparr>]\<rparr>)"
proof -
  have p: "push t cc w = (Inr None, w)"
    using assms(2) by (simp add: push_def known_channel_def)
  have "try_catch cfg now t w =
     (Inr (), \<lparr>res_status = ''success'', res_message = Msg_push_ok None\<rparr>, advance t now,
      w\<lparr>trace := trace w @ [Update (advance t now)],
        task_table := map (write_row (advance t now)) (task_table w)\<rparr>)"
    using assms(1,3) p
    by (simp add: try_catch_def first_attempt_def updateTaskAfterSuccess_ok Let_def)
  then show ?thesis
    using assms(4)
    by (simp add: dispatch_task_def insertTaskLog_def emit_def log_of_def advance_fixed(1)
        advance_fixed(2) [symmetric])
qed

theorem C10_entry_without_sender_is_logged_as_success_witness:
  "lookup_channel demo_config_email (channel demo_email) = Some demo_channel
   \<and> \<not> known_channel demo_email
   \<and> filter is_call (trace (snd (dispatch_task demo_config_email 2000 demo_email
                                    (world_of [demo_email] [])))) = []
   \<and> map log_status (log_table (snd (dispatch_task demo_config_email 2000 demo_email
                                    (world_of [demo_email] [])))) = [''success'']
   \<and> map log_message (log_table (snd (dispatch_task demo_config_email 2000 demo_email
                                    (world_of [demo_email] [])))) = [Msg_push_ok None]
   \<and> map status (task_table (snd (dispatch_task demo_config_email 2000 demo_email
                                    (world_of [demo_email] [])))) = [False]"
proof -
  have l: "lookup_channel demo_config_email (channel demo_email) = Some demo_channel"
    by (simp add: demo_email_fields demo_email_lookup)
  have k: "\<not> known_channel demo_email"
    by (simp add: known_channel_def demo_email_fields)
  from C10_entry_without_sender_is_logged_as_success
         [OF l k world_of_fields(5) world_of_fields(6), of 2000 "[demo_email]" "[]"] l k
  show ?thesis
    by (simp add: world_of_fields demo_email_fields write_row_def advance_fixed(1)
        advance_single stored_row_fields)
qed

subsection \<open>Containment of errors within a tick\<close>

text \<open>
  Claim C7. No error arising in the dispatch of one task reaches the tick driver: the
  tasks are processed one at a time in the order of the due query, and a failure in the
  dispatch of one task does not prevent the dispatch of a later one.

  \<open>handleScheduledTasks\<close> itself never raises: its outer \<^verbatim>\<open>catch\<close> block takes every
  error. But the log insert of the \<^verbatim>\<open>finally\<close> block is inside no handler of the loop
  body. With two due tasks and a database that rejects the first log insert, the
  handler stops after the first task: nothing is sent, updated or logged for the second.
  The loop test of the retry loop is inside no handler of the loop body either: under a
  configuration without \<open>retry_config\<close>, the first failed send ends the tick the same way
  (\<open>demo_dispatch_no_retry_config\<close>).
\<close>

theorem C7_log_insert_error_ends_the_tick:
  "select_due [demo_task, demo_second] (toISOString 2000) = [demo_task, demo_second]
   \<and> handleScheduledTasks (Some demo_config) 2000
       ((world_of [demo_task, demo_second] [])\<lparr>insert_faults := [True]\<rparr>)
     = (world_of [demo_task, demo_second] [])
         \<lparr>trace :=
            [Query ''1970-01-01T00:00:02.000Z'',
             Call_sender ''sendByServerChan'', Fetch ''https://sctapi.ftqq.com/SCT1.send'',
             Sleep 10, Sleep 10,
             Insert \<lparr>log_task_id = ''a'', log_channel = ''server_chan'',
                     log_execute_time = ''1970-01-01T00:00:02.000Z'', log_status = ''fail'',
                     log_message = Msg_retry_failed 2 (ReferenceError ''channelConfig'')\<rparr>,
             Console_error DbError]\<rparr>"
proof -
  let ?c = "''1970-01-01T00:00:02.000Z''"
  let ?w = "(world_of [demo_task, demo_second] [])\<lparr>insert_faults := [True]\<rparr>"
  let ?w1 = "?w\<lparr>trace := [Query ?c]\<rparr>"
  have sd: "select_due [demo_task, demo_second] ?c = [demo_task, demo_second]"
    by (simp add: select_due_def due_def demo_task_fields demo_second_fields demo_text_order)
  have q: "queryDueTasks ?c ?w = (Inr [demo_task, demo_second], ?w1)"
    by (simp add: queryDueTasks_def emit_def world_of_fields sd)
  have r: "replies ?w1 = []" by (simp add: world_of_fields)
  have a: "try_catch demo_config 2000 demo_task ?w1 =
     (Inr (), \<lparr>res_status = ''fail'',
       res_message = Msg_retry_failed 2 (ReferenceError ''channelConfig'')\<rparr>,
      demo_task,
      ?w1\<lparr>trace := trace ?w1 @ [Call_sender ''sendByServerChan'',
                             Fetch ''https://sctapi.ftqq.com/SCT1.send'', Sleep 10, Sleep 10]\<rparr>)"
    by (rule demo_try_catch_fail [OF demo_task_fields(2) r])
  have d: "dispatch_task demo_config 2000 demo_task ?w1 =
     (Inl DbError,
      ?w\<lparr>insert_faults := [],
         trace := [Query ?c,
             Call_sender ''sendByServerChan'', Fetch ''https://sctapi.ftqq.com/SCT1.send'',
             Sleep 10, Sleep 10,
             Insert \<lparr>log_task_id = ''a'', log_channel = ''server_chan'',
                     log_execute_time = ?c, log_status = ''fail'',
                     log_message = Msg_retry_failed 2 (ReferenceError ''channelConfig'')\<rparr>]\<rparr>)"
    by (simp add: dispatch_task_def a insertTaskLog_def emit_def log_of_def demo_task_fields
        demo_iso)
  have nc: "notification_channels demo_config \<noteq> None" by (simp add: demo_config_def)
  have "handleScheduledTasks (Some demo_config) 2000 ?w =
      (world_of [demo_task, demo_second] [])
         \<lparr>trace :=
            [Query ?c,
             Call_sender ''sendByServerChan'', Fetch ''https://sctapi.ftqq.com/SCT1.send'',
             Sleep 10, Sleep 10,
             Insert \<lparr>log_task_id = ''a'', log_channel = ''server_chan'',
                     log_execute_time = ?c, log_status = ''fail'',
                     log_message = Msg_retry_failed 2 (ReferenceError ''channelConfig'')\<rparr>,
             Console_error DbError]\<rparr>"
    using nc
    by (simp add: handleScheduledTasks_def scheduled_body_def loadAppConfig_def demo_iso q d
        emit_def)
       (simp add: world_of_def)
  with sd show ?thesis by (simp add: demo_iso)
qed

text \<open>
  Claim C7, amended. Errors of the channel lookup, of the senders and of the task update
  stay inside the dispatch of their task: when the configuration has a \<open>retry_config\<close>
  and the log inserts run, a tick whose configuration and due query are in order
  dispatches every due task, one after the other in the order of the query, each from the
  world that the dispatch before it left, whatever the providers answer and whether or
  not updates reject; one log row is appended for each, and the handler returns without
  an error.
\<close>

theorem C7_every_due_task_dispatched_while_log_inserts_run:
  assumes "insert_faults w = []" and "notification_channels cfg \<noteq> None"
    and "retry_config cfg \<noteq> None"
    and "queryDueTasks (toISOString now) w = (Inr dueTasks, w1)"
  shows "scheduled_body (Some cfg) now w =
           (Inr (), foldl (\<lambda>w t. snd (dispatch_task cfg now t w)) w1 dueTasks) \<and>
         handleScheduledTasks (Some cfg) now w =
           foldl (\<lambda>w t. snd (dispatch_task cfg now t w)) w1 dueTasks \<and>
         map log_task_id (log_table (handleScheduledTasks (Some cfg) now w)) =
           map log_task_id (log_table w) @ map task_id dueTasks"
proof -
  from assms(3) obtain rc where c: "retry_config cfg = Some rc" by auto
  from queryDueTasks_logs [OF assms(4)] assms(1)
  have q: "log_table w1 = log_table w" "insert_faults w1 = []" by simp_all
  note f = for_each_task_fold [OF c q(2), of now dueTasks]
  have b: "scheduled_body (Some cfg) now w =
           (Inr (), foldl (\<lambda>w t. snd (dispatch_task cfg now t w)) w1 dueTasks)"
    using assms(2,4) f by (simp add: scheduled_body_def loadAppConfig_def)
  then have "handleScheduledTasks (Some cfg) now w =
             foldl (\<lambda>w t. snd (dispatch_task cfg now t w)) w1 dueTasks"
    by (simp add: handleScheduledTasks_def)
  with b f q(1) show ?thesis by simp
qed

theorem C7_every_due_task_dispatched_while_log_inserts_run_witness:
  "insert_faults (world_of [demo_task, demo_second] []) = []
   \<and> notification_channels demo_config \<noteq> None
   \<and> retry_config demo_config \<noteq> None
   \<and> fst (queryDueTasks (toISOString 2000) (world_of [demo_task, demo_second] []))
       = Inr [demo_task, demo_second]
   \<and> map log_task_id (log_table (handleScheduledTasks (Some demo_config) 2000
                                    (world_of [demo_task, demo_second] []))) = [''a'', ''b'']"
proof -
  let ?w = "world_of [demo_task, demo_second] []"
  let ?c = "toISOString 2000"
  have sd: "select_due [demo_task, demo_second] ?c = [demo_task, demo_second]"
    by (simp add: select_due_def due_def demo_task_fields demo_second_fields demo_iso
        demo_text_order)
  have q: "queryDueTasks ?c ?w = (Inr [demo_task, demo_second], emit (Query ?c) ?w)"
    by (simp add: queryDueTasks_def emit_def world_of_fields sd)
  have nc: "notification_channels demo_config \<noteq> None" by (simp add: demo_config_def)
  have rc: "retry_config demo_config \<noteq> None" by (simp add: demo_config_def)
  from C7_every_due_task_dispatched_while_log_inserts_run [OF world_of_fields(6) nc rc q]
    nc rc q
  show ?thesis by (auto simp: world_of_fields demo_task_fields demo_second_fields)
qed

subsection \<open>The endpoint of the server-push sender\<close>

text \<open>
  Claim C9. The server-push sender fails when \<open>send_key\<close> is absent (or empty), before
  any request. When the key starts with \<^verbatim>\<open>sctp\<close>, the endpoint is built from the digits
  captured by matching the key against \<^verbatim>\<open>sctp(\d+)\<close>, and the sender fails, again
  before any request, when the pattern does not match. For any other non-empty key the
  endpoint is the configured \<open>api_prefix\<close> followed by the key and \<^verbatim>\<open>.send\<close>.
\<close>

theorem C9_server_push_endpoint:
  "(falsy (send_key cc) \<longrightarrow>
      pushUrl cc = Inl MissingSendKey \<and>
      sendByServerChan c cc title w =
        (Inl MissingSendKey, emit (Call_sender ''sendByServerChan'') w)) \<and>
   (\<forall>key. send_key cc = Some key \<and> key \<noteq> [] \<and> prefix ''sctp'' key \<longrightarrow>
      (\<not> matches_sctp key \<longrightarrow>
         pushUrl cc = Inl InvalidSctpSendKey \<and>
         sendByServerChan c cc title w =
           (Inl InvalidSctpSendKey, emit (Call_sender ''sendByServerChan'') w)) \<and>
      (matches_sctp key \<longrightarrow>
         (\<exists>serverNum. exec_sctp key = Some serverNum \<and> serverNum \<noteq> [] \<and>
            list_all is_digit serverNum \<and>
            (\<exists>pre post. key = pre @ ''sctp'' @ serverNum @ post) \<and>
            pushUrl cc =
              Inr (''https://'' @ serverNum @ ''.push.ft07.com/send/'' @ key @ ''.send'')))) \<and>
   (\<forall>key. send_key cc = Some key \<and> key \<noteq> [] \<and> \<not> prefix ''sctp'' key \<longrightarrow>
      pushUrl cc = Inr (interpolate (api_prefix cc) @ key @ ''.send''))"
proof (intro conjI allI impI)
  assume f: "falsy (send_key cc)"
  then show p: "pushUrl cc = Inl MissingSendKey" by (simp add: pushUrl_def)
  then show "sendByServerChan c cc title w =
        (Inl MissingSendKey, emit (Call_sender ''sendByServerChan'') w)"
    by (simp add: sendByServerChan_def)
next
  fix key
  assume k: "send_key cc = Some key \<and> key \<noteq> [] \<and> prefix ''sctp'' key"
    and m: "\<not> matches_sctp key"
  from m have "exec_sctp key = None" by (simp add: exec_sctp_None_iff)
  with k show p: "pushUrl cc = Inl InvalidSctpSendKey" by (simp add: pushUrl_def falsy_def)
  then show "sendByServerChan c cc title w =
           (Inl InvalidSctpSendKey, emit (Call_sender ''sendByServerChan'') w)"
    by (simp add: sendByServerChan_def)
next
  fix key
  assume k: "send_key cc = Some key \<and> key \<noteq> [] \<and> prefix ''sctp'' key"
    and m: "matches_sctp key"
  from m have "exec_sctp key \<noteq> None" by (simp add: exec_sctp_None_iff)
  then obtain n where n: "exec_sctp key = Some n" by blast
  from exec_sctp_Some [OF n] have d: "n \<noteq> []" "list_all is_digit n"
    "\<exists>pre post. key = pre @ ''sctp'' @ n @ post" by simp_all
  from k n have "pushUrl cc = Inr (''https://'' @ n @ ''.push.ft07.com/send/'' @ key @ ''.send'')"
    by (simp add: pushUrl_def falsy_def)
  with n d show "\<exists>serverNum. exec_sctp key = Some serverNum \<and> serverNum \<noteq> [] \<and>
            list_all is_digit serverNum \<and>
            (\<exists>pre post. key = pre @ ''sctp'' @ serverNum @ post) \<and>
            pushUrl cc =
              Inr (''https://'' @ serverNum @ ''.push.ft07.com/send/'' @ key @ ''.send'')"
    by blast
next
  fix key
  assume "send_key cc = Some key \<and> key \<noteq> [] \<and> \<not> prefix ''sctp'' key"
  then show "pushUrl cc = Inr (interpolate (api_prefix cc) @ key @ ''.send'')"
    by (simp add: pushUrl_def falsy_def)
qed

theorem C9_server_push_endpoint_witness:
  "falsy (send_key (demo_channel\<lparr>send_key := None\<rparr>))
   \<and> pushUrl (demo_channel\<lparr>send_key := None\<rparr>) = Inl MissingSendKey
   \<and> prefix ''sctp'' ''sctp123tabc'' \<and> matches_sctp ''sctp123tabc''
   \<and> pushUrl (demo_channel\<lparr>send_key := Some ''sctp123tabc''\<rparr>)
       = Inr ''https://123.push.ft07.com/send/sctp123tabc.send''
   \<and> prefix ''sctp'' ''sctpx'' \<and> \<not> matches_sctp ''sctpx''
   \<and> pushUrl (demo_channel\<lparr>send_key := Some ''sctpx''\<rparr>) = Inl InvalidSctpSendKey
   \<and> \<not> prefix ''sctp'' ''SCT1''
   \<and> pushUrl demo_channel = Inr ''https://sctapi.ftqq.com/SCT1.send''"
proof -
  have e1: "exec_sctp ''sctp123tabc'' = Some ''123''" by (simp add: is_digit_def)
  have e2: "exec_sctp ''sctpx'' = None" by (simp add: is_digit_def)
  have m1: "matches_sctp ''sctp123tabc''" using exec_sctp_None_iff [of "''sctp123tabc''"] e1 by simp
  have m2: "\<not> matches_sctp ''sctpx''" using exec_sctp_None_iff [of "''sctpx''"] e2 by simp
  have f: "falsy (send_key (demo_channel\<lparr>send_key := None\<rparr>))" by (simp add: falsy_def)
  have k: "send_key demo_channel = Some ''SCT1''" "api_prefix demo_channel = Some ''https://sctapi.ftqq.com/''"
    by (simp_all add: demo_channel_def)
  from C9_server_push_endpoint [of "demo_channel\<lparr>send_key := None\<rparr>" "''c''" "''n''" "world_of [] []"]
       C9_server_push_endpoint [of "demo_channel\<lparr>send_key := Some ''sctp123tabc''\<rparr>" "''c''" "''n''" "world_of [] []"]
       C9_server_push_endpoint [of "demo_channel\<lparr>send_key := Some ''sctpx''\<rparr>" "''c''" "''n''" "world_of [] []"]
       C9_server_push_endpoint [of demo_channel "''c''" "''n''" "world_of [] []"]
       f m1 m2 e1 k
  show ?thesis by (simp add: interpolate_def)
qed

end
